theory Spec2Isabelle
  imports Main
begin

section \<open>Common types\<close>

text \<open>
  Documents live in MongoDB collections; a collection is modelled as the list of its
  documents, \<open>findOne\<close> as \<open>find\<close> (the first match), \<open>deleteMany\<close> as \<open>filter\<close>.
  An ObjectId is the natural number its twelve bytes denote (below \<open>2 ^ 96\<close>), a Date
  is the number of milliseconds since the epoch. Every operation takes the current time \<open>now\<close> as an
  argument (one instant per call).
\<close>

type_synonym oid = nat
type_synonym date = int

text \<open>Every \<open>throw new Error(msg)\<close> of the source is one constructor; \<open>message\<close> gives
  its text. \<open>ValidationError\<close>, \<open>DuplicateKey\<close>, \<open>CastError\<close> and \<open>TypeError\<close> are the errors
  the library and the runtime raise (schema validation, a unique index, a string that is no
  ObjectId, a read through null),
  \<open>EmailServiceError\<close> whatever a call of \<open>services/emailService.js\<close> rejects with.\<close>

datatype error =
    InvalidOTP
  | OTPAlreadyUsed
  | OTPExpired
  | TooManyAttempts
  | InvitationAlreadySent
  | InvalidOrExpiredInvitation
  | NoLongerPending
  | InvitationExpired
  | TemporaryUserNotFound
  | ProvideEmailAndOTP
  | UserNotFound
  | EmailAlreadyVerified
  | ProvideNameEmailPassword
  | PasswordTooShort
  | UserAlreadyExists
  | FailedToSendVerificationEmail
  | ProvideEmailAndWorkspace
  | WorkspaceNotFound
  | NotAMember
  | NoPermissionToInvite
  | CannotInviteYourself
  | AlreadyAMember
  | FailedToSendInvitationEmail
  | InvitationTokenRequired
  | NotForYourEmail
  | RegisterOrLoginFirst
  | VerifyEmailFirst
  | AccessDenied
  | CannotRemoveOwner
  | ValidationError
  | DuplicateKey
  | TypeError
  | CastError
  | EmailServiceError

fun message :: "error \<Rightarrow> string" where
  "message InvalidOTP = ''Invalid OTP''"
| "message OTPAlreadyUsed = ''OTP has already been used''"
| "message OTPExpired = ''OTP has expired''"
| "message TooManyAttempts = ''Too many failed attempts. Please request a new OTP''"
| "message InvitationAlreadySent =
     ''An invitation has already been sent to this email for this workspace''"
| "message InvalidOrExpiredInvitation = ''Invalid or expired invitation''"
| "message NoLongerPending = ''Invitation is no longer pending''"
| "message InvitationExpired = ''Invitation has expired''"
| "message TemporaryUserNotFound = ''Temporary user not found''"
| "message ProvideEmailAndOTP = ''Please provide email and OTP''"
| "message UserNotFound = ''User not found''"
| "message EmailAlreadyVerified = ''Email is already verified''"
| "message ProvideNameEmailPassword = ''Please provide name, email, and password''"
| "message PasswordTooShort = ''Password must be at least 6 characters long''"
| "message UserAlreadyExists = ''User already exists with this email''"
| "message FailedToSendVerificationEmail =
     ''Failed to send verification email. Please try again.''"
| "message ProvideEmailAndWorkspace = ''Please provide email and workspace ID''"
| "message WorkspaceNotFound = ''Workspace not found''"
| "message NotAMember = ''You are not a member of this workspace''"
| "message NoPermissionToInvite =
     ''You do not have permission to invite members to this workspace''"
| "message CannotInviteYourself = ''You cannot invite yourself''"
| "message AlreadyAMember = ''User is already a member of this workspace''"
| "message FailedToSendInvitationEmail = ''Failed to send invitation email''"
| "message InvitationTokenRequired = ''Invitation token is required''"
| "message NotForYourEmail = ''This invitation is not for your email address''"
| "message RegisterOrLoginFirst =
     ''Please register or login first to accept this invitation''"
| "message VerifyEmailFirst =
     ''Please verify your email address before accepting invitations''"
| "message AccessDenied = ''Access denied''"
| "message CannotRemoveOwner = ''Cannot remove workspace owner''"
| "message ValidationError = ''Validation failed''"
| "message DuplicateKey = ''E11000 duplicate key error''"
| "message TypeError = ''Cannot read properties of null''"
| "message CastError = ''Cast to ObjectId failed''"
| "message EmailServiceError = ''(the message of the error the email service threw)''"

text \<open>\<open>parseInt(process.env.X) || d\<close>: the environment gives the result of \<open>parseInt\<close>
  (\<open>None\<close> for NaN); NaN and 0 are falsy and fall back to the default.\<close>

definition parseInt_or :: "int option \<Rightarrow> int \<Rightarrow> int" where
  "parseInt_or v d = (case v of None \<Rightarrow> d | Some n \<Rightarrow> if n = 0 then d else n)"

record env =
  OTP_LENGTH :: "int option"
  OTP_EXPIRY_MINUTES :: "int option"
  INVITATION_EXPIRY_HOURS :: "int option"

section \<open>Strings, dates and ObjectIds\<close>

text \<open>A JavaScript string is modelled by a string of 8-bit characters. On the strings of
  ASCII characters, \<open>toLowerCase\<close> and \<open>trim\<close> below are
  \<open>String.prototype.toLowerCase\<close> and \<open>String.prototype.trim\<close>; on other strings
  JavaScript also lowers letters and strips spaces beyond ASCII, which is not modelled, and
  the statements about addresses below are about ASCII addresses.\<close>

definition ascii :: "string \<Rightarrow> bool" where
  "ascii s \<longleftrightarrow> list_all (\<lambda>c. (of_char c :: nat) < 128) s"

definition toLowerCase_char :: "char \<Rightarrow> char" where
  "toLowerCase_char c =
     (let n = (of_char c :: nat) in if 65 \<le> n \<and> n \<le> 90 then char_of (n + 32) else c)"

definition toLowerCase :: "string \<Rightarrow> string" where
  "toLowerCase s = map toLowerCase_char s"

text \<open>The ASCII white space and line terminators: tab, line feed, vertical tab, form feed,
  carriage return, space.\<close>

definition is_space :: "char \<Rightarrow> bool" where
  "is_space c \<longleftrightarrow> (let n = (of_char c :: nat) in n = 32 \<or> (9 \<le> n \<and> n \<le> 13))"

definition trim :: "string \<Rightarrow> string" where
  "trim s = rev (dropWhile is_space (rev (dropWhile is_space s)))"

text \<open>The \<open>email\<close> path of the OTP, TeamInvitation and TemporaryUser schemas has
  \<open>lowercase: true\<close> and \<open>trim: true\<close>. Mongoose applies these setters to the value
  it stores in a document and to the value of the path in a query filter. The User schema
  has neither.\<close>

definition schema_email :: "string \<Rightarrow> string" where
  "schema_email s = trim (toLowerCase s)"

text \<open>\<open>new Date(ms)\<close> is an Invalid Date when \<open>ms\<close> is beyond 8.64e15 on either side,
  and the validation of a Date path fails on it. Within that range the arithmetic on
  doubles that computes \<open>ms\<close> is exact.\<close>

definition valid_date :: "date \<Rightarrow> bool" where
  "valid_date ms \<longleftrightarrow> - 8640000000000000 \<le> ms \<and> ms \<le> 8640000000000000"

text \<open>\<open>ObjectId.prototype.toString\<close>: the 24 hexadecimal digits, in lower case.\<close>

definition hex_digit :: "nat \<Rightarrow> char" where
  "hex_digit d = (if d < 10 then char_of (48 + d) else char_of (87 + d))"

fun hex_of :: "nat \<Rightarrow> nat \<Rightarrow> string" where
  "hex_of 0 n = []"
| "hex_of (Suc k) n = hex_of k (n div 16) @ [hex_digit (n mod 16)]"

definition toString :: "oid \<Rightarrow> string" where
  "toString i = hex_of 24 i"

text \<open>The cast of a string to an ObjectId, as \<open>findByIdAndUpdate\<close> does it with its first
  argument: 24 hexadecimal digits in either case; any other string is a \<open>CastError\<close>.
  (Versions of the driver that also take a string of 12 characters for the twelve bytes
  are not modelled; no statement below rests on a cast failing.)\<close>

definition hex_value :: "char \<Rightarrow> nat option" where
  "hex_value c =
     (let n = (of_char c :: nat)
      in if 48 \<le> n \<and> n \<le> 57 then Some (n - 48)
         else if 97 \<le> n \<and> n \<le> 102 then Some (n - 87)
         else if 65 \<le> n \<and> n \<le> 70 then Some (n - 55)
         else None)"

definition castObjectId :: "string \<Rightarrow> oid option" where
  "castObjectId s =
     (if length s = 24 \<and> list_all (\<lambda>c. hex_value c \<noteq> None) s
      then Some (foldl (\<lambda>a c. case hex_value c of Some v \<Rightarrow> 16 * a + v | None \<Rightarrow> a) 0 s)
      else None)"

section \<open>models/OTP.js\<close>

datatype purpose = email_verification | password_reset

record otp_doc =
  otp_id :: oid
  otp_email :: string
  otp_otp :: string
  otp_purpose :: purpose
  otp_attempts :: int
  otp_isUsed :: bool
  otp_expiresAt :: date

definition digits :: string where
  "digits = ''0123456789''"

text \<open>\<open>generateOTP\<close>: the loop runs \<open>length\<close> times; \<open>rnd i\<close> stands for
  \<open>Math.floor(Math.random() * digits.length)\<close> of the \<open>i\<close>-th round.\<close>

fun generateOTP_loop :: "(nat \<Rightarrow> nat) \<Rightarrow> nat \<Rightarrow> nat \<Rightarrow> string" where
  "generateOTP_loop rnd i 0 = []"
| "generateOTP_loop rnd i (Suc k) =
     (digits ! (rnd i mod length digits)) # generateOTP_loop rnd (Suc i) k"

definition generateOTP :: "(nat \<Rightarrow> nat) \<Rightarrow> int \<Rightarrow> string" where
  "generateOTP rnd len = generateOTP_loop rnd 0 (nat len)"

definition otp_pair :: "string \<Rightarrow> purpose \<Rightarrow> otp_doc \<Rightarrow> bool" where
  "otp_pair email purpose d \<longleftrightarrow> otp_email d = email \<and> otp_purpose d = purpose"

definition otp_triple :: "string \<Rightarrow> string \<Rightarrow> purpose \<Rightarrow> otp_doc \<Rightarrow> bool" where
  "otp_triple email otp purpose d \<longleftrightarrow>
     otp_email d = email \<and> otp_otp d = otp \<and> otp_purpose d = purpose"

text \<open>\<open>otpDoc.save()\<close> of a loaded document writes it back under its \<open>_id\<close>.\<close>

definition save_otp :: "otp_doc \<Rightarrow> otp_doc list \<Rightarrow> otp_doc list" where
  "save_otp doc store = map (\<lambda>d. if otp_id d = otp_id doc then doc else d) store"

text \<open>\<open>createOTP\<close>: \<open>deleteMany({email, purpose})\<close>, then a new document is validated
  (\<open>email\<close> and \<open>otp\<close> are \<open>required\<close>, which an empty string fails; \<open>expiresAt\<close> is
  a Date) and inserted. The filter and the document hold the address as the schema casts
  it. \<open>attempts\<close> and \<open>isUsed\<close> take the schema defaults. The result is the collection
  after the call and the returned code or the error thrown.\<close>

definition createOTP ::
  "env \<Rightarrow> (nat \<Rightarrow> nat) \<Rightarrow> date \<Rightarrow> oid \<Rightarrow> string \<Rightarrow> purpose \<Rightarrow> otp_doc list
     \<Rightarrow> otp_doc list \<times> (error + string)" where
  "createOTP cfg rnd now new_id email purpose store =
     (let otpLength = parseInt_or (OTP_LENGTH cfg) 6;
          expiryMinutes = parseInt_or (OTP_EXPIRY_MINUTES cfg) 10;
          store1 = filter (\<lambda>d. \<not> otp_pair (schema_email email) purpose d) store;
          otp = generateOTP rnd otpLength;
          expiresAt = now + expiryMinutes * 60 * 1000;
          otpDoc = \<lparr> otp_id = new_id, otp_email = schema_email email, otp_otp = otp,
                     otp_purpose = purpose, otp_attempts = 0, otp_isUsed = False,
                     otp_expiresAt = expiresAt \<rparr>
      in if schema_email email = [] \<or> otp = [] \<or> \<not> valid_date expiresAt
         then (store1, Inl ValidationError)
         else (store1 @ [otpDoc], Inr otp))"

text \<open>\<open>verifyOTP\<close>: both filters hold the address as the schema casts it.\<close>

definition verifyOTP ::
  "date \<Rightarrow> string \<Rightarrow> string \<Rightarrow> purpose \<Rightarrow> otp_doc list \<Rightarrow> otp_doc list \<times> (error + bool)" where
  "verifyOTP now email otp purpose store =
     (case find (\<lambda>d. otp_triple (schema_email email) otp purpose d \<and> \<not> otp_isUsed d
                       \<and> otp_expiresAt d > now)
             store of
        None \<Rightarrow>
          (case find (otp_triple (schema_email email) otp purpose) store of
             Some expiredOTP \<Rightarrow>
               if otp_isUsed expiredOTP then (store, Inl OTPAlreadyUsed)
               else (store, Inl OTPExpired)
           | None \<Rightarrow> (store, Inl InvalidOTP))
      | Some otpDoc \<Rightarrow>
          if otp_attempts otpDoc \<ge> 5 then (store, Inl TooManyAttempts)
          else (save_otp (otpDoc\<lparr>otp_isUsed := True\<rparr>) store, Inr True))"

text \<open>\<open>updateOne(filter, {$inc: {attempts: 1}})\<close> changes the first match only; the
  filter of \<open>incrementAttempts\<close> holds the address as the schema casts it.\<close>

fun updateOne :: "('a \<Rightarrow> bool) \<Rightarrow> ('a \<Rightarrow> 'a) \<Rightarrow> 'a list \<Rightarrow> 'a list" where
  "updateOne P f [] = []"
| "updateOne P f (d # ds) = (if P d then f d # ds else d # updateOne P f ds)"

definition incrementAttempts ::
  "string \<Rightarrow> string \<Rightarrow> purpose \<Rightarrow> otp_doc list \<Rightarrow> otp_doc list" where
  "incrementAttempts email otp purpose store =
     updateOne (otp_triple (schema_email email) otp purpose)
       (\<lambda>d. d\<lparr>otp_attempts := otp_attempts d + 1\<rparr>) store"

text \<open>An active code at time \<open>t\<close>: unused and unexpired.\<close>

definition otp_active :: "date \<Rightarrow> otp_doc \<Rightarrow> bool" where
  "otp_active t d \<longleftrightarrow> \<not> otp_isUsed d \<and> otp_expiresAt d > t"

definition active_codes :: "date \<Rightarrow> string \<Rightarrow> purpose \<Rightarrow> otp_doc list \<Rightarrow> otp_doc list" where
  "active_codes t email purpose store =
     filter (\<lambda>d. otp_pair email purpose d \<and> otp_active t d) store"

text \<open>The invariant \<open>createOTP\<close> maintains: at most one active code per
  (email, purpose).\<close>

definition one_active_per_pair :: "date \<Rightarrow> otp_doc list \<Rightarrow> bool" where
  "one_active_per_pair t store \<longleftrightarrow>
     list_all (\<lambda>d. length (active_codes t (otp_email d) (otp_purpose d) store) \<le> 1) store"

text \<open>The stronger fact that holds of every collection built by \<open>createOTP\<close>,
  \<open>verifyOTP\<close> and \<open>incrementAttempts\<close> from the empty one: at most one document
  per (email, purpose).\<close>

definition otp_key :: "otp_doc \<Rightarrow> string \<times> purpose" where
  "otp_key d = (otp_email d, otp_purpose d)"

definition one_code_per_pair :: "otp_doc list \<Rightarrow> bool" where
  "one_code_per_pair store \<longleftrightarrow> distinct (map otp_key store)"

section \<open>models/TeamInvitation.js\<close>

datatype inv_status = Pending | Accepted | Declined | Expired

record inv_metadata =
  inviterName :: "string option"
  workspaceName :: "string option"
  personalMessage :: "string option"

record invitation =
  inv_id :: oid
  inv_email :: string
  inv_workspaceId :: oid
  inv_invitedBy :: oid
  inv_role :: string
  inv_token :: string
  inv_status :: inv_status
  inv_acceptedBy :: "oid option"
  inv_acceptedAt :: "date option"
  inv_expiresAt :: date
  inv_metadata :: inv_metadata

text \<open>The argument object of \<open>createInvitation\<close>; \<open>role\<close> may be absent.\<close>

record invitationData =
  d_email :: string
  d_workspaceId :: oid
  d_invitedBy :: oid
  d_role :: "string option"
  d_inviterName :: "string option"
  d_workspaceName :: "string option"
  d_personalMessage :: "string option"

definition invitation_roles :: "string list" where
  "invitation_roles = [''member'', ''manager'', ''admin'']"

text \<open>A pending, unexpired invitation for (email, workspaceId) at time \<open>now\<close>: the
  filter of the \<open>findOne\<close> in \<open>createInvitation\<close>.\<close>

definition pending_for :: "date \<Rightarrow> string \<Rightarrow> oid \<Rightarrow> invitation \<Rightarrow> bool" where
  "pending_for now email workspaceId i \<longleftrightarrow>
     inv_email i = email \<and> inv_workspaceId i = workspaceId \<and> inv_status i = Pending
     \<and> inv_expiresAt i > now"

text \<open>\<open>createInvitation\<close>: the token is the result of \<open>generateToken()\<close>
  (\<open>crypto.randomBytes(32)\<close> in hex), given by the caller of the model. The filter of
  the lookup and the new document hold the address as the schema casts it. The new
  document is validated (\<open>email\<close> and \<open>token\<close> required, \<open>role\<close> in the enum,
  \<open>expiresAt\<close> a Date) and inserted under the unique index on \<open>token\<close>.\<close>

definition createInvitation ::
  "env \<Rightarrow> date \<Rightarrow> oid \<Rightarrow> string \<Rightarrow> invitationData \<Rightarrow> invitation list
     \<Rightarrow> invitation list \<times> (error + invitation)" where
  "createInvitation cfg now new_id token data store =
     (let email = schema_email (d_email data);
          workspaceId = d_workspaceId data;
          role = (case d_role data of None \<Rightarrow> ''member'' | Some r \<Rightarrow> r);
          expiryHours = parseInt_or (INVITATION_EXPIRY_HOURS cfg) 72;
          expiresAt = now + expiryHours * 60 * 60 * 1000
      in case find (pending_for now email workspaceId) store of
           Some existingInvitation \<Rightarrow> (store, Inl InvitationAlreadySent)
         | None \<Rightarrow>
             (let invitation =
                    \<lparr> inv_id = new_id, inv_email = email, inv_workspaceId = workspaceId,
                      inv_invitedBy = d_invitedBy data, inv_role = role, inv_token = token,
                      inv_status = Pending, inv_acceptedBy = None, inv_acceptedAt = None,
                      inv_expiresAt = expiresAt,
                      inv_metadata = \<lparr> inviterName = d_inviterName data,
                                       workspaceName = d_workspaceName data,
                                       personalMessage = d_personalMessage data \<rparr> \<rparr>
              in if email = [] \<or> token = [] \<or> role \<notin> set invitation_roles
                    \<or> \<not> valid_date expiresAt
                 then (store, Inl ValidationError)
                 else if list_ex (\<lambda>i. inv_token i = token) store
                 then (store, Inl DuplicateKey)
                 else (store @ [invitation], Inr invitation)))"

definition findByToken :: "date \<Rightarrow> string \<Rightarrow> invitation list \<Rightarrow> error + invitation" where
  "findByToken now token store =
     (case find (\<lambda>i. inv_token i = token \<and> inv_status i = Pending \<and> inv_expiresAt i > now)
             store of
        None \<Rightarrow> Inl InvalidOrExpiredInvitation
      | Some invitation \<Rightarrow> Inr invitation)"

text \<open>\<open>this.save()\<close> of a loaded invitation writes it back under its \<open>_id\<close>.\<close>

definition save_invitation :: "invitation \<Rightarrow> invitation list \<Rightarrow> invitation list" where
  "save_invitation doc store = map (\<lambda>i. if inv_id i = inv_id doc then doc else i) store"

definition accept ::
  "date \<Rightarrow> oid \<Rightarrow> invitation \<Rightarrow> invitation list
     \<Rightarrow> invitation list \<times> (error + invitation)" where
  "accept now userId this store =
     (if inv_status this \<noteq> Pending then (store, Inl NoLongerPending)
      else if inv_expiresAt this < now
      then (save_invitation (this\<lparr>inv_status := Expired\<rparr>) store, Inl InvitationExpired)
      else (let this' = this\<lparr>inv_status := Accepted, inv_acceptedBy := Some userId,
                              inv_acceptedAt := Some now\<rparr>
            in (save_invitation this' store, Inr this')))"

definition decline ::
  "invitation \<Rightarrow> invitation list \<Rightarrow> invitation list \<times> (error + invitation)" where
  "decline this store =
     (if inv_status this \<noteq> Pending then (store, Inl NoLongerPending)
      else (let this' = this\<lparr>inv_status := Declined\<rparr>
            in (save_invitation this' store, Inr this')))"

section \<open>models/User.js and the TemporaryUser model\<close>

datatype user_status = Active | Inactive | PendingVerification

record preferences =
  theme :: string
  timezone :: string

record user =
  u_id :: oid
  u_name :: string
  u_email :: string
  u_password :: string
  u_avatar :: string
  u_status :: user_status
  u_emailVerified :: bool
  u_emailVerifiedAt :: "date option"
  u_preferences :: preferences
  u_workspaces :: "oid list"

text \<open>A Mongoose document in memory: the fields, the paths marked modified, and
  whether it was never saved. \<open>new User(data)\<close> marks every path that \<open>data\<close> sets as
  modified (this is what lets \<open>User.create\<close> in \<open>registerUser\<close> hash the plain
  password in the pre-save hook); a path left out takes the schema default.\<close>

record user_document =
  doc :: user
  modifiedPaths :: "string list"
  isNew :: bool

record userData =
  ud_name :: string
  ud_email :: string
  ud_password :: string
  ud_avatar :: "string option"
  ud_preferences :: "preferences option"
  ud_status :: "user_status option"
  ud_emailVerified :: "bool option"
  ud_emailVerifiedAt :: "date option"

definition given :: "string \<Rightarrow> 'a option \<Rightarrow> string list" where
  "given path v = (case v of None \<Rightarrow> [] | Some _ \<Rightarrow> [path])"

definition default_to :: "'a \<Rightarrow> 'a option \<Rightarrow> 'a" where
  "default_to d v = (case v of None \<Rightarrow> d | Some x \<Rightarrow> x)"

definition new_User :: "oid \<Rightarrow> userData \<Rightarrow> user_document" where
  "new_User new_id data =
     \<lparr> doc =
         \<lparr> u_id = new_id, u_name = ud_name data, u_email = ud_email data,
           u_password = ud_password data,
           u_avatar = default_to ''/images/default-avatar.png'' (ud_avatar data),
           u_status = default_to PendingVerification (ud_status data),
           u_emailVerified = default_to False (ud_emailVerified data),
           u_emailVerifiedAt = ud_emailVerifiedAt data,
           u_preferences =
             default_to \<lparr> theme = ''light'', timezone = ''UTC'' \<rparr> (ud_preferences data),
           u_workspaces = [] \<rparr>,
       modifiedPaths =
         [''name'', ''email'', ''password''] @ given ''avatar'' (ud_avatar data)
         @ given ''preferences'' (ud_preferences data) @ given ''status'' (ud_status data)
         @ given ''emailVerified'' (ud_emailVerified data)
         @ given ''emailVerifiedAt'' (ud_emailVerifiedAt data),
       isNew = True \<rparr>"

definition markModified :: "string \<Rightarrow> user_document \<Rightarrow> user_document" where
  "markModified path d = d\<lparr>modifiedPaths := modifiedPaths d @ [path]\<rparr>"

definition isModified :: "string \<Rightarrow> user_document \<Rightarrow> bool" where
  "isModified path d \<longleftrightarrow> path \<in> set (modifiedPaths d)"

text \<open>\<open>userSchema.pre('save')\<close>. \<open>hash\<close> is \<open>bcrypt.hash\<close> and \<open>salt\<close> the result of
  \<open>bcrypt.genSalt(10)\<close>; both belong to the bcryptjs package and are arguments of
  the model.\<close>

definition user_pre_save ::
  "(string \<Rightarrow> string \<Rightarrow> string) \<Rightarrow> string \<Rightarrow> user_document \<Rightarrow> user_document" where
  "user_pre_save hash salt this =
     (if \<not> isModified ''password'' this then this
      else this\<lparr>doc := (doc this)\<lparr>u_password := hash (u_password (doc this)) salt\<rparr>\<rparr>)"

text \<open>\<open>user.save(options)\<close>: validation of the required strings (unless
  \<open>validateBeforeSave: false\<close>), then the pre-save hook, then the write: an insert
  under the unique index on \<open>email\<close> for a new document, an update under \<open>_id\<close>
  otherwise.\<close>

definition save_user ::
  "bool \<Rightarrow> (string \<Rightarrow> string \<Rightarrow> string) \<Rightarrow> string \<Rightarrow> user_document \<Rightarrow> user list
     \<Rightarrow> user list \<times> (error + user_document)" where
  "save_user validateBeforeSave hash salt this store =
     (if validateBeforeSave \<and>
         (u_name (doc this) = [] \<or> u_email (doc this) = []
          \<or> u_password (doc this) = [])
      then (store, Inl ValidationError)
      else (let this1 = user_pre_save hash salt this;
                saved = this1\<lparr>modifiedPaths := [], isNew := False\<rparr>
            in if isNew this
               then (if list_ex (\<lambda>u. u_email u = u_email (doc this1)) store
                     then (store, Inl DuplicateKey)
                     else (store @ [doc this1], Inr saved))
               else (map (\<lambda>u. if u_id u = u_id (doc this1) then doc this1 else u) store,
                     Inr saved)))"

record temporary_user =
  t_id :: oid
  t_name :: string
  t_email :: string
  t_password :: string
  t_avatar :: string
  t_preferences :: preferences
  t_expiresAt :: date

text \<open>\<open>deleteOne(filter)\<close> removes the first match.\<close>

fun deleteOne :: "('a \<Rightarrow> bool) \<Rightarrow> 'a list \<Rightarrow> 'a list" where
  "deleteOne P [] = []"
| "deleteOne P (d # ds) = (if P d then ds else d # deleteOne P ds)"

text \<open>\<open>promoteToUser\<close>, on the two collections it touches. The filters on the
  temporary users hold the address as the schema casts it.\<close>

definition promoteToUser ::
  "(string \<Rightarrow> string \<Rightarrow> string) \<Rightarrow> string \<Rightarrow> date \<Rightarrow> oid \<Rightarrow> string
     \<Rightarrow> temporary_user list \<times> user list
     \<Rightarrow> (temporary_user list \<times> user list) \<times> (error + user)" where
  "promoteToUser hash salt now new_id email colls =
     (case colls of (tempUsers, users) \<Rightarrow>
        (case find (\<lambda>t. t_email t = schema_email email) tempUsers of
           None \<Rightarrow> (colls, Inl TemporaryUserNotFound)
         | Some tempUser \<Rightarrow>
             (let data = \<lparr> ud_name = t_name tempUser, ud_email = t_email tempUser,
                           ud_password = t_password tempUser,
                           ud_avatar = Some (t_avatar tempUser),
                           ud_preferences = Some (t_preferences tempUser),
                           ud_status = Some Active, ud_emailVerified = Some True,
                           ud_emailVerifiedAt = Some now \<rparr>;
                  user0 = new_User new_id data;
                  user1 = markModified ''emailVerifiedAt'' (markModified ''emailVerified''
                            (markModified ''status'' (markModified ''preferences''
                              (markModified ''avatar'' (markModified ''email''
                                (markModified ''name'' user0))))))
              in case save_user False hash salt user1 users of
                   (users', Inl e) \<Rightarrow> ((tempUsers, users'), Inl e)
                 | (users', Inr saved) \<Rightarrow>
                     ((deleteOne (\<lambda>t. t_email t = schema_email email) tempUsers, users'),
                      Inr (doc saved)))))"

section \<open>models/Workspace.js\<close>

record member =
  m_user :: oid
  m_role :: string

record workspace =
  w_id :: oid
  w_name :: string
  w_description :: "string option"
  w_owner :: oid
  w_members :: "member list"

definition workspace_roles :: "string list" where
  "workspace_roles = [''admin'', ''member'', ''guest'']"

text \<open>Schema validation of a workspace: \<open>name\<close> required, every member's role in
  the enum.\<close>

definition validate_workspace :: "workspace \<Rightarrow> bool" where
  "validate_workspace w \<longleftrightarrow>
     w_name w \<noteq> [] \<and> list_all (\<lambda>m. m_role m \<in> set workspace_roles) (w_members w)"

definition save_workspace ::
  "workspace \<Rightarrow> workspace list \<Rightarrow> workspace list \<times> (error + workspace)" where
  "save_workspace this store =
     (if \<not> validate_workspace this then (store, Inl ValidationError)
      else (map (\<lambda>w. if w_id w = w_id this then this else w) store, Inr this))"

section \<open>The route handlers\<close>

text \<open>The database is the record of its collections, with the counter that new
  ObjectIds are drawn from. A handler returns the database it leaves and either the
  error it throws, with the status that \<open>res.status\<close> (or the \<open>AppError\<close>) carries
  at that moment (200 when none was set), or its response.\<close>

record db =
  users :: "user list"
  temporaryUsers :: "temporary_user list"
  otps :: "otp_doc list"
  invitations :: "invitation list"
  workspaces :: "workspace list"
  next_id :: oid

text \<open>What a call of the e-mail service does: it resolves to an object whose
  \<open>success\<close> field is given, or it rejects.\<close>

datatype email_outcome = EmailResult bool | EmailThrows

datatype response =
    Registered user
  | EmailVerified user workspace
  | InvitationSent invitation
  | InvitationAccepted workspace user
  | MemberRemoved workspace

type_synonym result = "db \<times> ((nat \<times> error) + response)"

definition create_workspace ::
  "workspace \<Rightarrow> workspace list \<Rightarrow> workspace list \<times> (error + workspace)" where
  "create_workspace w store =
     (if \<not> validate_workspace w then (store, Inl ValidationError)
      else (store @ [w], Inr w))"

subsection \<open>controllers/authController.js\<close>

text \<open>The \<open>try\<close> block of \<open>registerUser\<close> with its \<open>catch\<close>, after \<open>User.create\<close>
  has returned \<open>user\<close>.\<close>

definition registerUser_otp ::
  "env \<Rightarrow> (nat \<Rightarrow> nat) \<Rightarrow> date \<Rightarrow> email_outcome \<Rightarrow> user \<Rightarrow> string \<Rightarrow> db \<Rightarrow> result" where
  "registerUser_otp cfg rnd now sendOTPEmail user email db =
     (case createOTP cfg rnd now (next_id db) email email_verification (otps db) of
        (otps1, Inl e) \<Rightarrow>
          (db\<lparr>otps := otps1, users := deleteOne (\<lambda>u. u_id u = u_id user) (users db)\<rparr>,
           Inl (500, FailedToSendVerificationEmail))
      | (otps1, Inr otp) \<Rightarrow>
          (let db1 = db\<lparr>otps := otps1, next_id := Suc (next_id db)\<rparr>
           in case sendOTPEmail of
                EmailThrows \<Rightarrow>
                  (db1\<lparr>users := deleteOne (\<lambda>u. u_id u = u_id user) (users db1)\<rparr>,
                   Inl (500, FailedToSendVerificationEmail))
              | EmailResult success \<Rightarrow> (db1, Inr (Registered user))))"

text \<open>\<open>User.create\<close> and what follows it.\<close>

definition registerUser_create ::
  "env \<Rightarrow> (nat \<Rightarrow> nat) \<Rightarrow> (string \<Rightarrow> string \<Rightarrow> string) \<Rightarrow> string \<Rightarrow> date \<Rightarrow> email_outcome
     \<Rightarrow> string \<Rightarrow> string \<Rightarrow> string \<Rightarrow> db \<Rightarrow> result" where
  "registerUser_create cfg rnd hash salt now sendOTPEmail name email password db =
     (let data = \<lparr> ud_name = name, ud_email = email, ud_password = password,
                   ud_avatar = None, ud_preferences = None,
                   ud_status = Some PendingVerification, ud_emailVerified = Some False,
                   ud_emailVerifiedAt = None \<rparr>
      in case save_user True hash salt (new_User (next_id db) data) (users db) of
           (users1, Inl e) \<Rightarrow> (db, Inl (200, e))
         | (users1, Inr saved) \<Rightarrow>
             registerUser_otp cfg rnd now sendOTPEmail (doc saved) email
               (db\<lparr>users := users1, next_id := Suc (next_id db)\<rparr>))"

definition registerUser ::
  "env \<Rightarrow> (nat \<Rightarrow> nat) \<Rightarrow> (string \<Rightarrow> string \<Rightarrow> string) \<Rightarrow> string \<Rightarrow> date \<Rightarrow> email_outcome
     \<Rightarrow> string \<Rightarrow> string \<Rightarrow> string \<Rightarrow> db \<Rightarrow> result" where
  "registerUser cfg rnd hash salt now sendOTPEmail name email password db =
     (if name = [] \<or> email = [] \<or> password = []
      then (db, Inl (400, ProvideNameEmailPassword))
      else if length password < 6 then (db, Inl (400, PasswordTooShort))
      else
        (case find (\<lambda>u. u_email u = email) (users db) of
           Some userExists \<Rightarrow>
             if u_emailVerified userExists then (db, Inl (400, UserAlreadyExists))
             else registerUser_create cfg rnd hash salt now sendOTPEmail name email password
                    (db\<lparr>users := deleteOne (\<lambda>u. u_id u = u_id userExists) (users db)\<rparr>)
         | None \<Rightarrow>
             registerUser_create cfg rnd hash salt now sendOTPEmail name email password db))"

text \<open>A loaded user whose listed paths the handler has assigned, saved.\<close>

definition save_loaded_user ::
  "(string \<Rightarrow> string \<Rightarrow> string) \<Rightarrow> string \<Rightarrow> string list \<Rightarrow> user \<Rightarrow> user list
     \<Rightarrow> user list \<times> (error + user_document)" where
  "save_loaded_user hash salt paths u store =
     save_user True hash salt \<lparr> doc = u, modifiedPaths = paths, isNew = False \<rparr> store"

text \<open>The \<open>try\<close> block of \<open>verifyEmail\<close>. The welcome e-mail is sent inside a
  \<open>try\<close> of its own whose \<open>catch\<close> only logs, so it changes nothing here.\<close>

definition verifyEmail_try ::
  "(string \<Rightarrow> string \<Rightarrow> string) \<Rightarrow> string \<Rightarrow> date \<Rightarrow> string \<Rightarrow> string \<Rightarrow> db \<Rightarrow> result" where
  "verifyEmail_try hash salt now email otp db =
     (case verifyOTP now email otp email_verification (otps db) of
        (otps1, Inl e) \<Rightarrow> (db\<lparr>otps := otps1\<rparr>, Inl (200, e))
      | (otps1, Inr ok) \<Rightarrow>
          (let db1 = db\<lparr>otps := otps1\<rparr>
           in case find (\<lambda>u. u_email u = email) (users db1) of
                None \<Rightarrow> (db1, Inl (404, UserNotFound))
              | Some user \<Rightarrow>
                  if u_emailVerified user then (db1, Inl (400, EmailAlreadyVerified))
                  else
                    (let user1 = user\<lparr>u_emailVerified := True, u_emailVerifiedAt := Some now,
                                      u_status := Active\<rparr>
                     in case save_loaded_user hash salt
                               [''emailVerified'', ''emailVerifiedAt'', ''status''] user1
                               (users db1) of
                          (users1, Inl e) \<Rightarrow> (db1, Inl (200, e))
                        | (users1, Inr saved1) \<Rightarrow>
                            (let db2 = db1\<lparr>users := users1\<rparr>;
                                 w = \<lparr> w_id = next_id db2,
                                       w_name = u_name user1 @ CHR 0x27 # ''s Workspace'',
                                       w_description = Some ''Your personal workspace'',
                                       w_owner = u_id user1,
                                       w_members = [\<lparr> m_user = u_id user1,
                                                       m_role = ''admin'' \<rparr>] \<rparr>
                             in case create_workspace w (workspaces db2) of
                                  (ws1, Inl e) \<Rightarrow> (db2, Inl (200, e))
                                | (ws1, Inr workspace) \<Rightarrow>
                                    (let db3 = db2\<lparr>workspaces := ws1,
                                                   next_id := Suc (next_id db2)\<rparr>;
                                         user2 = (doc saved1)\<lparr>u_workspaces :=
                                                   u_workspaces (doc saved1) @ [w_id workspace]\<rparr>
                                     in case save_loaded_user hash salt [''workspaces''] user2
                                               (users db3) of
                                          (users2, Inl e) \<Rightarrow> (db3, Inl (200, e))
                                        | (users2, Inr saved2) \<Rightarrow>
                                            (db3\<lparr>users := users2\<rparr>,
                                             Inr (EmailVerified (doc saved2) workspace)))))))"

text \<open>\<open>verifyEmail\<close>: the \<open>catch\<close> block increments the attempts of the document
  matching the submitted (email, otp, purpose) and rethrows with status 400. The handler
  hands the address of the request as it is to the OTP model, whose schema casts it, and to
  \<open>User.findOne\<close>, which looks for it as it is.\<close>

definition verifyEmail ::
  "(string \<Rightarrow> string \<Rightarrow> string) \<Rightarrow> string \<Rightarrow> date \<Rightarrow> string \<Rightarrow> string \<Rightarrow> db \<Rightarrow> result" where
  "verifyEmail hash salt now email otp db =
     (if email = [] \<or> otp = [] then (db, Inl (400, ProvideEmailAndOTP))
      else
        (case verifyEmail_try hash salt now email otp db of
           (db1, Inl (status, e)) \<Rightarrow>
             (db1\<lparr>otps := incrementAttempts email otp email_verification (otps db1)\<rparr>,
              Inl (400, e))
         | (db1, Inr r) \<Rightarrow> (db1, Inr r)))"

subsection \<open>controllers/invitationController.js\<close>

text \<open>The \<open>try\<close> block of \<open>sendInvitation\<close> with its \<open>catch\<close>, which rethrows every
  error with status 400.\<close>

definition sendInvitation_try ::
  "env \<Rightarrow> date \<Rightarrow> string \<Rightarrow> email_outcome \<Rightarrow> user \<Rightarrow> string \<Rightarrow> workspace \<Rightarrow> string
     \<Rightarrow> string option \<Rightarrow> db \<Rightarrow> result" where
  "sendInvitation_try cfg now token sendTeamInvitationEmail reqUser email workspace role
       personalMsg db =
     (case createInvitation cfg now (next_id db) token
             \<lparr> d_email = toLowerCase email, d_workspaceId = w_id workspace,
               d_invitedBy = u_id reqUser, d_role = Some role,
               d_inviterName = Some (u_name reqUser),
               d_workspaceName = Some (w_name workspace),
               d_personalMessage = personalMsg \<rparr>
             (invitations db) of
        (invs1, Inl e) \<Rightarrow> (db\<lparr>invitations := invs1\<rparr>, Inl (400, e))
      | (invs1, Inr invitation) \<Rightarrow>
          (let db1 = db\<lparr>invitations := invs1, next_id := Suc (next_id db)\<rparr>
           in case sendTeamInvitationEmail of
                EmailThrows \<Rightarrow> (db1, Inl (400, EmailServiceError))
              | EmailResult success \<Rightarrow>
                  if \<not> success
                  then (db1\<lparr>invitations :=
                              deleteOne (\<lambda>i. inv_id i = inv_id invitation) (invitations db1)\<rparr>,
                        Inl (400, FailedToSendInvitationEmail))
                  else (db1, Inr (InvitationSent invitation))))"

text \<open>\<open>sendInvitation\<close>: \<open>reqUser\<close> is \<open>req.user\<close>, the other arguments are the
  fields of \<open>req.body\<close> (\<open>workspaceId\<close>, \<open>role\<close> and \<open>personalMessage\<close> may be absent).\<close>

definition sendInvitation ::
  "env \<Rightarrow> date \<Rightarrow> string \<Rightarrow> email_outcome \<Rightarrow> user \<Rightarrow> string \<Rightarrow> oid option \<Rightarrow> string option
     \<Rightarrow> string option \<Rightarrow> db \<Rightarrow> result" where
  "sendInvitation cfg now token sendTeamInvitationEmail reqUser email workspaceId role0
       personalMsg db =
     (let role = default_to ''member'' role0;
          inviterId = u_id reqUser
      in if email = [] \<or> workspaceId = None
         then (db, Inl (400, ProvideEmailAndWorkspace))
         else
           (case find (\<lambda>w. Some (w_id w) = workspaceId) (workspaces db) of
              None \<Rightarrow> (db, Inl (404, WorkspaceNotFound))
            | Some workspace \<Rightarrow>
                (case find (\<lambda>m. m_user m = inviterId) (w_members workspace) of
                   None \<Rightarrow> (db, Inl (403, NotAMember))
                 | Some userMembership \<Rightarrow>
                     if m_role userMembership \<notin> set [''admin'', ''manager'']
                     then (db, Inl (403, NoPermissionToInvite))
                     else if toLowerCase email = toLowerCase (u_email reqUser)
                     then (db, Inl (400, CannotInviteYourself))
                     else if (case find (\<lambda>u. u_email u = toLowerCase email) (users db) of
                                Some existingUser \<Rightarrow>
                                  list_ex (\<lambda>m. m_user m = u_id existingUser)
                                    (w_members workspace)
                              | None \<Rightarrow> False)
                     then (db, Inl (400, AlreadyAMember))
                     else sendInvitation_try cfg now token sendTeamInvitationEmail reqUser
                            email workspace role personalMsg db)))"

text \<open>The user an acceptance is for: the one with the given \<open>userId\<close>, whose e-mail
  must be the invitation's, or else the one registered under the invitation's
  e-mail.\<close>

definition acceptInvitation_user ::
  "oid option \<Rightarrow> invitation \<Rightarrow> user list \<Rightarrow> (nat \<times> error) + user" where
  "acceptInvitation_user userId invitation store =
     (case userId of
        Some uid \<Rightarrow>
          (case find (\<lambda>u. u_id u = uid) store of
             None \<Rightarrow> Inl (404, UserNotFound)
           | Some user \<Rightarrow>
               if toLowerCase (u_email user) \<noteq> toLowerCase (inv_email invitation)
               then Inl (403, NotForYourEmail)
               else Inr user)
      | None \<Rightarrow>
          (case find (\<lambda>u. u_email u = inv_email invitation) store of
             None \<Rightarrow> Inl (400, RegisterOrLoginFirst)
           | Some user \<Rightarrow> Inr user))"

text \<open>The part of \<open>acceptInvitation\<close> after \<open>invitation.accept\<close> has succeeded: the
  member is pushed and the workspace saved (which validates it), then the workspace
  is added to the user's list.\<close>

definition acceptInvitation_grant ::
  "(string \<Rightarrow> string \<Rightarrow> string) \<Rightarrow> string \<Rightarrow> invitation \<Rightarrow> user \<Rightarrow> db \<Rightarrow> result" where
  "acceptInvitation_grant hash salt invitation user db =
     (case find (\<lambda>w. w_id w = inv_workspaceId invitation) (workspaces db) of
        None \<Rightarrow> (db, Inl (400, TypeError))
      | Some workspace0 \<Rightarrow>
          (let workspace = workspace0\<lparr>w_members := w_members workspace0 @
                             [\<lparr> m_user = u_id user, m_role = inv_role invitation \<rparr>]\<rparr>
           in case save_workspace workspace (workspaces db) of
                (ws1, Inl e) \<Rightarrow> (db, Inl (400, e))
              | (ws1, Inr saved) \<Rightarrow>
                  (let db1 = db\<lparr>workspaces := ws1\<rparr>
                   in if w_id workspace \<notin> set (u_workspaces user)
                      then (let user1 = user\<lparr>u_workspaces :=
                                          u_workspaces user @ [w_id workspace]\<rparr>
                            in case save_loaded_user hash salt [''workspaces''] user1
                                      (users db1) of
                                 (users1, Inl e) \<Rightarrow> (db1, Inl (400, e))
                               | (users1, Inr saved_user) \<Rightarrow>
                                   (db1\<lparr>users := users1\<rparr>,
                                    Inr (InvitationAccepted workspace (doc saved_user))))
                      else (db1, Inr (InvitationAccepted workspace user)))))"

text \<open>\<open>acceptInvitation\<close>: every error of the \<open>try\<close> block is rethrown with status
  400 by the \<open>catch\<close>.\<close>

definition acceptInvitation ::
  "(string \<Rightarrow> string \<Rightarrow> string) \<Rightarrow> string \<Rightarrow> date \<Rightarrow> string \<Rightarrow> oid option \<Rightarrow> db \<Rightarrow> result" where
  "acceptInvitation hash salt now token userId db =
     (if token = [] then (db, Inl (400, InvitationTokenRequired))
      else
        (case findByToken now token (invitations db) of
           Inl e \<Rightarrow> (db, Inl (400, e))
         | Inr invitation \<Rightarrow>
             (case acceptInvitation_user userId invitation (users db) of
                Inl (status, e) \<Rightarrow> (db, Inl (400, e))
              | Inr user \<Rightarrow>
                  if \<not> u_emailVerified user then (db, Inl (400, VerifyEmailFirst))
                  else
                    (case accept now (u_id user) invitation (invitations db) of
                       (invs1, Inl e) \<Rightarrow> (db\<lparr>invitations := invs1\<rparr>, Inl (400, e))
                     | (invs1, Inr accepted) \<Rightarrow>
                         acceptInvitation_grant hash salt accepted user
                           (db\<lparr>invitations := invs1\<rparr>)))))"

subsection \<open>routes/workspaces.js\<close>

text \<open>\<open>DELETE /:id/members/:userId\<close>: \<open>reqUserId\<close> is \<open>req.user._id\<close>,
  \<open>workspaceId\<close> the workspace that \<open>req.params.id\<close> denotes, and \<open>userId\<close> the text of
  \<open>req.params.userId\<close>, which the route compares with the \<open>toString()\<close> of the ids and
  hands to \<open>findByIdAndUpdate\<close>, which casts it.\<close>

definition removeMember :: "oid \<Rightarrow> oid \<Rightarrow> string \<Rightarrow> db \<Rightarrow> result" where
  "removeMember reqUserId workspaceId userId db =
     (case find (\<lambda>w. w_id w = workspaceId) (workspaces db) of
        None \<Rightarrow> (db, Inl (404, WorkspaceNotFound))
      | Some workspace0 \<Rightarrow>
          (let isOwner = (w_owner workspace0 = reqUserId);
               isAdmin = list_ex (\<lambda>m. m_user m = reqUserId \<and> m_role m = ''admin'')
                           (w_members workspace0);
               isRemovingSelf = (userId = toString reqUserId)
           in if \<not> isOwner \<and> \<not> isAdmin \<and> \<not> isRemovingSelf
              then (db, Inl (403, AccessDenied))
              else if toString (w_owner workspace0) = userId
              then (db, Inl (400, CannotRemoveOwner))
              else
                (let workspace = workspace0\<lparr>w_members :=
                                   filter (\<lambda>m. toString (m_user m) \<noteq> userId)
                                     (w_members workspace0)\<rparr>
                 in case save_workspace workspace (workspaces db) of
                      (ws1, Inl e) \<Rightarrow> (db, Inl (200, e))
                    | (ws1, Inr saved) \<Rightarrow>
                        (case castObjectId userId of
                           None \<Rightarrow> (db\<lparr>workspaces := ws1\<rparr>, Inl (200, CastError))
                         | Some uid \<Rightarrow>
                             (db\<lparr>workspaces := ws1,
                                 users := map (\<lambda>u. if u_id u = uid
                                                    then u\<lparr>u_workspaces :=
                                                           filter (\<lambda>w. w \<noteq> w_id workspace)
                                                             (u_workspaces u)\<rparr>
                                                    else u) (users db)\<rparr>,
                              Inr (MemberRemoved workspace))))))"

section \<open>Auxiliary definitions for the statements\<close>

text \<open>The document that \<open>createOTP\<close> inserts.\<close>

definition issued :: "env \<Rightarrow> (nat \<Rightarrow> nat) \<Rightarrow> date \<Rightarrow> oid \<Rightarrow> string \<Rightarrow> purpose \<Rightarrow> otp_doc" where
  "issued cfg rnd now new_id email purpose =
     \<lparr> otp_id = new_id, otp_email = schema_email email,
       otp_otp = generateOTP rnd (parseInt_or (OTP_LENGTH cfg) 6),
       otp_purpose = purpose, otp_attempts = 0, otp_isUsed = False,
       otp_expiresAt = now + parseInt_or (OTP_EXPIRY_MINUTES cfg) 10 * 60 * 1000 \<rparr>"

text \<open>The user document that \<open>User.create\<close> inserts in \<open>registerUser\<close>.\<close>

definition registered ::
  "oid \<Rightarrow> (string \<Rightarrow> string \<Rightarrow> string) \<Rightarrow> string \<Rightarrow> string \<Rightarrow> string \<Rightarrow> string \<Rightarrow> user" where
  "registered new_id hash salt name email password =
     \<lparr> u_id = new_id, u_name = name, u_email = email, u_password = hash password salt,
       u_avatar = ''/images/default-avatar.png'', u_status = PendingVerification,
       u_emailVerified = False, u_emailVerifiedAt = None,
       u_preferences = \<lparr> theme = ''light'', timezone = ''UTC'' \<rparr>, u_workspaces = [] \<rparr>"

text \<open>The document that \<open>createInvitation\<close> inserts.\<close>

definition created :: "env \<Rightarrow> date \<Rightarrow> oid \<Rightarrow> string \<Rightarrow> invitationData \<Rightarrow> invitation" where
  "created cfg now new_id token data =
     \<lparr> inv_id = new_id, inv_email = schema_email (d_email data),
       inv_workspaceId = d_workspaceId data,
       inv_invitedBy = d_invitedBy data, inv_role = default_to ''member'' (d_role data),
       inv_token = token, inv_status = Pending, inv_acceptedBy = None, inv_acceptedAt = None,
       inv_expiresAt = now + parseInt_or (INVITATION_EXPIRY_HOURS cfg) 72 * 60 * 60 * 1000,
       inv_metadata = \<lparr> inviterName = d_inviterName data,
                        workspaceName = d_workspaceName data,
                        personalMessage = d_personalMessage data \<rparr> \<rparr>"

text \<open>A well-formed collection of codes: \<open>_id\<close> is unique, and there is at most one
  document per (email, purpose).\<close>

definition otp_wf :: "otp_doc list \<Rightarrow> bool" where
  "otp_wf store \<longleftrightarrow> distinct (map otp_id store) \<and> one_code_per_pair store"

text \<open>Concrete data for the instances below.\<close>

definition env_default :: env where
  "env_default = \<lparr> OTP_LENGTH = None, OTP_EXPIRY_MINUTES = None,
                    INVITATION_EXPIRY_HOURS = None \<rparr>"

definition otp_example :: otp_doc where
  "otp_example = \<lparr> otp_id = 1, otp_email = ''alice@example.com'', otp_otp = ''123456'',
      otp_purpose = email_verification, otp_attempts = 0, otp_isUsed = False,
      otp_expiresAt = 600000 \<rparr>"

text \<open>A source of random digits, a stand-in for \<open>bcrypt.hash\<close> and a salt, for the
  closed instances.\<close>

definition rnd_example :: "nat \<Rightarrow> nat" where
  "rnd_example i = i"

definition hash_example :: "string \<Rightarrow> string \<Rightarrow> string" where
  "hash_example password salt = salt @ password"

definition salt_example :: string where
  "salt_example = ''$2a$10$N9qo8uLOickgx2ZMRZoMye''"

definition inv_example :: invitation where
  "inv_example =
     \<lparr> inv_id = 20, inv_email = ''carol@example.com'', inv_workspaceId = 10, inv_invitedBy = 2,
       inv_role = ''member'', inv_token = ''a1b2'', inv_status = Pending, inv_acceptedBy = None,
       inv_acceptedAt = None, inv_expiresAt = 259200000,
       inv_metadata = \<lparr> inviterName = Some ''Bob'', workspaceName = Some ''W'',
                        personalMessage = None \<rparr> \<rparr>"

definition data_example :: invitationData where
  "data_example =
     \<lparr> d_email = '' Carol@Example.com '', d_workspaceId = 10, d_invitedBy = 2, d_role = None,
       d_inviterName = Some ''Bob'', d_workspaceName = Some ''W'', d_personalMessage = None \<rparr>"

definition ws_example :: workspace where
  "ws_example =
     \<lparr> w_id = 10, w_name = ''W'', w_description = None, w_owner = 1,
       w_members = [\<lparr> m_user = 1, m_role = ''admin'' \<rparr>, \<lparr> m_user = 2, m_role = ''member'' \<rparr>] \<rparr>"

definition user_owner :: user where
  "user_owner =
     \<lparr> u_id = 1, u_name = ''Bob'', u_email = ''bob@example.com'', u_password = ''$2a$10$b'',
       u_avatar = ''/images/default-avatar.png'', u_status = Active, u_emailVerified = True,
       u_emailVerifiedAt = Some 100, u_preferences = \<lparr> theme = ''light'', timezone = ''UTC'' \<rparr>,
       u_workspaces = [10] \<rparr>"

definition user_carol :: user where
  "user_carol =
     \<lparr> u_id = 3, u_name = ''Carol'', u_email = ''carol@example.com'', u_password = ''$2a$10$h'',
       u_avatar = ''/images/default-avatar.png'', u_status = Active, u_emailVerified = True,
       u_emailVerifiedAt = Some 500, u_preferences = \<lparr> theme = ''light'', timezone = ''UTC'' \<rparr>,
       u_workspaces = [] \<rparr>"

definition user_alice :: user where
  "user_alice =
     \<lparr> u_id = 4, u_name = ''Alice'', u_email = ''alice@example.com'',
       u_password = ''$2a$10$N9qo8uLOickgx2ZMRZoMyesecret1'',
       u_avatar = ''/images/default-avatar.png'', u_status = PendingVerification,
       u_emailVerified = False, u_emailVerifiedAt = None,
       u_preferences = \<lparr> theme = ''light'', timezone = ''UTC'' \<rparr>, u_workspaces = [] \<rparr>"

definition tmp_alice :: temporary_user where
  "tmp_alice =
     \<lparr> t_id = 3, t_name = ''Alice'', t_email = ''alice@example.com'',
       t_password = ''$2a$10$N9qo8uLOickgx2ZMRZoMyesecret1'',
       t_avatar = ''/images/default-avatar.png'',
       t_preferences = \<lparr> theme = ''light'', timezone = ''UTC'' \<rparr>, t_expiresAt = 86400000 \<rparr>"

definition db_empty :: db where
  "db_empty =
     \<lparr> users = [], temporaryUsers = [], otps = [], invitations = [], workspaces = [],
       next_id = 4 \<rparr>"

definition db_workspace :: db where
  "db_workspace =
     \<lparr> users = [], temporaryUsers = [], otps = [], invitations = [],
       workspaces = [ws_example], next_id = 30 \<rparr>"

definition ws_hex :: workspace where
  "ws_hex =
     \<lparr> w_id = 10, w_name = ''W'', w_description = None, w_owner = 171,
       w_members = [\<lparr> m_user = 171, m_role = ''admin'' \<rparr>, \<lparr> m_user = 2, m_role = ''member'' \<rparr>] \<rparr>"

definition db_hex :: db where
  "db_hex =
     \<lparr> users = [user_owner\<lparr>u_id := 171\<rparr>], temporaryUsers = [], otps = [], invitations = [],
       workspaces = [ws_hex], next_id = 30 \<rparr>"

definition db_manager :: db where
  "db_manager =
     \<lparr> users = [user_carol], temporaryUsers = [], otps = [],
       invitations = [inv_example\<lparr>inv_role := ''manager''\<rparr>],
       workspaces = [ws_example], next_id = 30 \<rparr>"

definition db_pending :: db where
  "db_pending =
     \<lparr> users = [user_alice], temporaryUsers = [], otps = [otp_example], invitations = [],
       workspaces = [], next_id = 30 \<rparr>"

definition db_upper :: db where
  "db_upper =
     \<lparr> users = [user_alice\<lparr>u_email := ''ALICE@example.com'', u_emailVerified := True,
                            u_status := Active\<rparr>],
       temporaryUsers = [], otps = [otp_example], invitations = [],
       workspaces = [], next_id = 30 \<rparr>"

definition db_verified :: db where
  "db_verified =
     \<lparr> users = [user_alice\<lparr>u_emailVerified := True, u_status := Active\<rparr>],
       temporaryUsers = [], otps = [otp_example], invitations = [],
       workspaces = [], next_id = 30 \<rparr>"

text \<open>One \<open>verify-email\<close> request for Alice with the given code; the database it leaves.\<close>

definition guess :: "string \<Rightarrow> db \<Rightarrow> db" where
  "guess code db =
     fst (verifyEmail hash_example salt_example 1000 ''alice@example.com'' code db)"

section \<open>Properties of the one-time codes\<close>

subsection \<open>Looking up a code\<close>

lemma find_unique_key:
  assumes "distinct (map f xs)" "x \<in> set xs" "P x"
    and "\<And>y. y \<in> set xs \<Longrightarrow> P y \<Longrightarrow> f y = f x"
  shows "find P xs = Some x"
proof -
  from assms(2,3) obtain y where y: "find P xs = Some y"
    by (cases "find P xs") (auto simp: find_None_iff)
  then have "P y" "y \<in> set xs"
    by (auto simp: find_Some_iff in_set_conv_nth)
  with assms(4) have "f y = f x" by blast
  moreover from assms(1) have "inj_on f (set xs)" by (simp add: distinct_map)
  ultimately have "y = x" using \<open>y \<in> set xs\<close> assms(2) by (auto dest: inj_onD)
  with y show ?thesis by simp
qed

lemma triple_key: "otp_triple e c p d \<Longrightarrow> otp_key d = (e, p)"
  by (simp add: otp_triple_def otp_key_def)

lemma verifyOTP_not_found:
  "\<not> list_ex (otp_triple (schema_email e) c p) store \<Longrightarrow> verifyOTP now e c p store = (store, Inl InvalidOTP)"
proof -
  assume a: "\<not> list_ex (otp_triple (schema_email e) c p) store"
  then have 1: "find (otp_triple (schema_email e) c p) store = None"
    by (simp add: find_None_iff list_ex_iff)
  from a have 2: "find (\<lambda>d. otp_triple (schema_email e) c p d \<and> \<not> otp_isUsed d \<and> otp_expiresAt d > now) store = None"
    by (auto simp: find_None_iff list_ex_iff)
  show ?thesis by (simp add: verifyOTP_def 1 2)
qed

lemma find_triple:
  assumes "one_code_per_pair store" "d \<in> set store" "otp_triple e c p d"
  shows "find (otp_triple e c p) store = Some d"
  using assms unfolding one_code_per_pair_def
  by (intro find_unique_key[where f = otp_key]) (auto simp: triple_key)

lemma find_active_triple:
  assumes "one_code_per_pair store" "d \<in> set store" "otp_triple e c p d"
  shows "find (\<lambda>d. otp_triple e c p d \<and> \<not> otp_isUsed d \<and> otp_expiresAt d > now) store
           = (if \<not> otp_isUsed d \<and> otp_expiresAt d > now then Some d else None)"
proof (cases "\<not> otp_isUsed d \<and> otp_expiresAt d > now")
  case True
  with assms show ?thesis unfolding one_code_per_pair_def
    by (simp, intro find_unique_key[where f = otp_key]) (auto simp: triple_key)
next
  case False
  have "\<And>y. y \<in> set store \<Longrightarrow> otp_triple e c p y \<Longrightarrow> y = d"
  proof -
    fix y assume y: "y \<in> set store" "otp_triple e c p y"
    from assms(1) have "inj_on otp_key (set store)"
      by (simp add: one_code_per_pair_def distinct_map)
    moreover have "otp_key y = otp_key d" using y assms(3) by (simp add: triple_key)
    ultimately show "y = d" using y(1) assms(2) by (auto dest: inj_onD)
  qed
  with False show ?thesis by (auto simp: find_None_iff)
qed

lemma verifyOTP_found:
  assumes "one_code_per_pair store" "d \<in> set store" "otp_triple (schema_email e) c p d"
  shows "verifyOTP now e c p store =
     (if otp_isUsed d then (store, Inl OTPAlreadyUsed)
      else if otp_expiresAt d \<le> now then (store, Inl OTPExpired)
      else if otp_attempts d \<ge> 5 then (store, Inl TooManyAttempts)
      else (save_otp (d\<lparr>otp_isUsed := True\<rparr>) store, Inr True))"
  by (auto simp: verifyOTP_def find_active_triple[OF assms] find_triple[OF assms])

lemma save_otp_set:
  "y \<in> set (save_otp d' store) \<Longrightarrow> y = d' \<or> (y \<in> set store \<and> otp_id y \<noteq> otp_id d')"
  by (auto simp: save_otp_def split: if_splits)

lemma save_otp_mem: "d \<in> set store \<Longrightarrow> otp_id d' = otp_id d \<Longrightarrow> d' \<in> set (save_otp d' store)"
  by (force simp: save_otp_def)

lemma verifyOTP_again:
  assumes "one_code_per_pair store" "d \<in> set store" "otp_triple (schema_email e) c p d"
  defines "store' \<equiv> save_otp (d\<lparr>otp_isUsed := True\<rparr>) store"
  shows "verifyOTP now' e c p store' = (store', Inl OTPAlreadyUsed)"
proof -
  let ?d' = "d\<lparr>otp_isUsed := True\<rparr>"
  have inj: "inj_on otp_key (set store)"
    using assms(1) by (simp add: one_code_per_pair_def distinct_map)
  have only: "\<And>y. y \<in> set store' \<Longrightarrow> otp_triple (schema_email e) c p y \<Longrightarrow> y = ?d'"
  proof -
    fix y assume y: "y \<in> set store'" "otp_triple (schema_email e) c p y"
    from save_otp_set[OF y(1)[unfolded store'_def]]
    show "y = ?d'"
    proof
      assume "y \<in> set store \<and> otp_id y \<noteq> otp_id ?d'"
      then have "y \<in> set store" "otp_id y \<noteq> otp_id d" by simp_all
      moreover have "otp_key y = otp_key d" using y(2) assms(3) by (simp add: triple_key)
      ultimately have "y = d" using inj assms(2) by (auto dest: inj_onD)
      with \<open>otp_id y \<noteq> otp_id d\<close> show ?thesis by simp
    qed simp
  qed
  have mem: "?d' \<in> set store'" unfolding store'_def
    by (rule save_otp_mem[OF assms(2)]) simp
  have t: "otp_triple (schema_email e) c p ?d'" using assms(3) by (simp add: otp_triple_def)
  have 1: "find (\<lambda>d. otp_triple (schema_email e) c p d \<and> \<not> otp_isUsed d \<and> otp_expiresAt d > now') store' = None"
    by (auto simp: find_None_iff dest: only)
  obtain z where z: "find (otp_triple (schema_email e) c p) store' = Some z"
    using mem t by (cases "find (otp_triple (schema_email e) c p) store'") (auto simp: find_None_iff)
  then have "z \<in> set store'" "otp_triple (schema_email e) c p z"
    by (auto simp: find_Some_iff in_set_conv_nth)
  then have "z = ?d'" using only by blast
  with z 1 show ?thesis by (simp add: verifyOTP_def)
qed

text \<open>
  Claim C4. In a collection with at most one code per (email, purpose), as \<open>createOTP\<close>
  keeps it, and for an ASCII address: a document matches the call when its code and purpose
  are the call's and its e-mail is the call's address as the schema casts it (lower case,
  trimmed), which is the address itself when it is written that way.
  \<open>verifyOTP(email, code, purpose)\<close> fails with \<open>Invalid OTP\<close> when no document matches;
  when a document matches, it fails with \<open>OTP has already been used\<close> if that document is
  used, with \<open>OTP has expired\<close> if it is unused and expired, with the too-many-attempts
  error if it is active with five or more attempts, and otherwise marks it used and
  succeeds, after which the same call fails with \<open>OTP has already been used\<close> at any
  later time.
\<close>

theorem verifyOTP_cases:
  assumes "one_code_per_pair store" and "ascii e"
  shows "(\<not> list_ex (otp_triple (schema_email e) c p) store \<longrightarrow>
            verifyOTP now e c p store = (store, Inl InvalidOTP))
       \<and> (\<forall>d \<in> set store. otp_triple (schema_email e) c p d \<longrightarrow>
            (otp_isUsed d \<longrightarrow> verifyOTP now e c p store = (store, Inl OTPAlreadyUsed))
          \<and> (\<not> otp_isUsed d \<and> otp_expiresAt d \<le> now \<longrightarrow>
                verifyOTP now e c p store = (store, Inl OTPExpired))
          \<and> (\<not> otp_isUsed d \<and> now < otp_expiresAt d \<and> 5 \<le> otp_attempts d \<longrightarrow>
                verifyOTP now e c p store = (store, Inl TooManyAttempts))
          \<and> (\<not> otp_isUsed d \<and> now < otp_expiresAt d \<and> otp_attempts d < 5 \<longrightarrow>
                verifyOTP now e c p store = (save_otp (d\<lparr>otp_isUsed := True\<rparr>) store, Inr True)
              \<and> d\<lparr>otp_isUsed := True\<rparr> \<in> set (save_otp (d\<lparr>otp_isUsed := True\<rparr>) store)
              \<and> (\<forall>now'. verifyOTP now' e c p (save_otp (d\<lparr>otp_isUsed := True\<rparr>) store)
                    = (save_otp (d\<lparr>otp_isUsed := True\<rparr>) store, Inl OTPAlreadyUsed))))"
proof (intro conjI impI ballI allI)
  assume "\<not> list_ex (otp_triple (schema_email e) c p) store"
  then show "verifyOTP now e c p store = (store, Inl InvalidOTP)"
    by (rule verifyOTP_not_found)
next
  fix d assume d: "d \<in> set store" "otp_triple (schema_email e) c p d"
  note found = verifyOTP_found[OF assms(1) d, of now]
  { assume "otp_isUsed d"
    then show "verifyOTP now e c p store = (store, Inl OTPAlreadyUsed)"
      by (simp add: found) }
  { assume "\<not> otp_isUsed d \<and> otp_expiresAt d \<le> now"
    then show "verifyOTP now e c p store = (store, Inl OTPExpired)"
      by (simp add: found) }
  { assume "\<not> otp_isUsed d \<and> now < otp_expiresAt d \<and> 5 \<le> otp_attempts d"
    then show "verifyOTP now e c p store = (store, Inl TooManyAttempts)"
      by (simp add: found) }
  { assume "\<not> otp_isUsed d \<and> now < otp_expiresAt d \<and> otp_attempts d < 5"
    then show "verifyOTP now e c p store = (save_otp (d\<lparr>otp_isUsed := True\<rparr>) store, Inr True)"
      by (simp add: found) }
  { show "d\<lparr>otp_isUsed := True\<rparr> \<in> set (save_otp (d\<lparr>otp_isUsed := True\<rparr>) store)"
      by (rule save_otp_mem[OF d(1)]) simp }
  { fix now'
    show "verifyOTP now' e c p (save_otp (d\<lparr>otp_isUsed := True\<rparr>) store)
            = (save_otp (d\<lparr>otp_isUsed := True\<rparr>) store, Inl OTPAlreadyUsed)"
      by (rule verifyOTP_again[OF assms(1) d]) }
qed

text \<open>An instance: one active code; a wrong code, the right code under an address in
  upper case with a space around it, and the right code again.\<close>

lemma schema_email_alice:
  "schema_email ''alice@example.com'' = ''alice@example.com''"
  "schema_email '' Alice@Example.COM '' = ''alice@example.com''"
  "ascii ''alice@example.com''" "ascii '' Alice@Example.COM ''"
  by code_simp+

theorem verifyOTP_cases_witness:
  "one_code_per_pair [otp_example] \<and> ascii '' Alice@Example.COM ''
   \<and> verifyOTP 1000 '' Alice@Example.COM '' ''000000'' email_verification [otp_example]
       = ([otp_example], Inl InvalidOTP)
   \<and> verifyOTP 1000 '' Alice@Example.COM '' ''123456'' email_verification [otp_example]
       = ([otp_example\<lparr>otp_isUsed := True\<rparr>], Inr True)
   \<and> verifyOTP 2000 '' Alice@Example.COM '' ''123456'' email_verification
        [otp_example\<lparr>otp_isUsed := True\<rparr>]
       = ([otp_example\<lparr>otp_isUsed := True\<rparr>], Inl OTPAlreadyUsed)"
proof -
  let ?e = "'' Alice@Example.COM ''"
  have inv: "one_code_per_pair [otp_example]"
    by (simp add: one_code_per_pair_def)
  have asc: "ascii ?e" by (rule schema_email_alice)
  have s: "save_otp (otp_example\<lparr>otp_isUsed := True\<rparr>) [otp_example]
             = [otp_example\<lparr>otp_isUsed := True\<rparr>]"
    by (simp add: save_otp_def)
  have t: "otp_triple (schema_email ?e) ''123456'' email_verification otp_example"
    by (simp add: schema_email_alice otp_triple_def otp_example_def)
  have n: "\<not> list_ex (otp_triple (schema_email ?e) ''000000'' email_verification)
             [otp_example]"
    by (simp add: schema_email_alice otp_triple_def otp_example_def)
  have a: "\<not> otp_isUsed otp_example \<and> 1000 < otp_expiresAt otp_example
            \<and> otp_attempts otp_example < 5"
    by (simp add: otp_example_def)
  from verifyOTP_cases[OF inv asc, of "''000000''" email_verification 1000] n
  have 1: "verifyOTP 1000 ?e ''000000'' email_verification [otp_example]
       = ([otp_example], Inl InvalidOTP)" by blast
  from verifyOTP_cases[OF inv asc, of "''123456''" email_verification 1000] t a
  have 2: "verifyOTP 1000 ?e ''123456'' email_verification [otp_example]
       = ([otp_example\<lparr>otp_isUsed := True\<rparr>], Inr True)
     \<and> (\<forall>now'. verifyOTP now' ?e ''123456'' email_verification
            [otp_example\<lparr>otp_isUsed := True\<rparr>]
          = ([otp_example\<lparr>otp_isUsed := True\<rparr>], Inl OTPAlreadyUsed))"
    by (simp add: s)
  from inv asc 1 2 show ?thesis by blast
qed


subsection \<open>Issuing a code\<close>

lemma generateOTP_nonempty: "0 < len \<Longrightarrow> generateOTP rnd len \<noteq> []"
proof -
  assume "0 < len"
  then obtain k where "nat len = Suc k" by (cases "nat len") auto
  then show ?thesis by (simp add: generateOTP_def)
qed

lemma createOTP_ok:
  assumes "schema_email e \<noteq> []" "0 < parseInt_or (OTP_LENGTH cfg) 6"
    and "valid_date (now + parseInt_or (OTP_EXPIRY_MINUTES cfg) 10 * 60 * 1000)"
  shows "createOTP cfg rnd now i e p store =
           (filter (\<lambda>d. \<not> otp_pair (schema_email e) p d) store @ [issued cfg rnd now i e p],
            Inr (generateOTP rnd (parseInt_or (OTP_LENGTH cfg) 6)))"
  using assms generateOTP_nonempty[OF assms(2), of rnd]
  by (simp add: createOTP_def issued_def Let_def)

lemma createOTP_store:
  "fst (createOTP cfg rnd now i e p store)
     = filter (\<lambda>d. \<not> otp_pair (schema_email e) p d) store
   \<or> fst (createOTP cfg rnd now i e p store)
       = filter (\<lambda>d. \<not> otp_pair (schema_email e) p d) store @ [issued cfg rnd now i e p]"
  by (simp add: createOTP_def issued_def Let_def)

lemma issued_pair: "otp_pair (schema_email e) p (issued cfg rnd now i e p)"
  by (simp add: otp_pair_def issued_def)

lemma pair_after_createOTP:
  assumes "schema_email e \<noteq> []" "0 < parseInt_or (OTP_LENGTH cfg) 6"
    and "valid_date (now + parseInt_or (OTP_EXPIRY_MINUTES cfg) 10 * 60 * 1000)"
  shows "filter (otp_pair (schema_email e) p) (fst (createOTP cfg rnd now i e p store))
           = [issued cfg rnd now i e p]"
  by (simp add: createOTP_ok[OF assms] issued_pair)

lemma active_after_createOTP:
  assumes "schema_email e \<noteq> []" "0 < parseInt_or (OTP_LENGTH cfg) 6"
    and "valid_date (now + parseInt_or (OTP_EXPIRY_MINUTES cfg) 10 * 60 * 1000)"
    and "t < now + parseInt_or (OTP_EXPIRY_MINUTES cfg) 10 * 60 * 1000"
  shows "active_codes t (schema_email e) p (fst (createOTP cfg rnd now i e p store))
           = [issued cfg rnd now i e p]"
proof -
  have "otp_active t (issued cfg rnd now i e p)"
    using assms(4) by (simp add: otp_active_def issued_def)
  then show ?thesis
    by (simp add: createOTP_ok[OF assms(1,2,3)] active_codes_def issued_pair)
qed

lemma active_codes_other_pair:
  assumes "(e', p') \<noteq> (e, p)"
  shows "active_codes t e' p' (filter (\<lambda>d. \<not> otp_pair e p d) store) = active_codes t e' p' store"
proof -
  have "\<And>d. otp_pair e' p' d \<Longrightarrow> \<not> otp_pair e p d"
    using assms by (auto simp: otp_pair_def)
  then show ?thesis
    unfolding active_codes_def by (auto intro: filter_cong)
qed

lemma active_codes_same_pair:
  "active_codes t e p (filter (\<lambda>d. \<not> otp_pair e p d) store) = []"
  by (auto simp: active_codes_def filter_empty_conv)

lemma active_codes_append:
  "active_codes t e p (xs @ ys) = active_codes t e p xs @ active_codes t e p ys"
  by (simp add: active_codes_def)

lemma active_codes_issued_other:
  "(e', p') \<noteq> (schema_email e, p) \<Longrightarrow> active_codes t e' p' [issued cfg rnd now i e p] = []"
  by (auto simp: active_codes_def otp_pair_def issued_def)

lemma active_codes_single: "length (active_codes t e p [d]) \<le> Suc 0"
  by (simp add: active_codes_def)

lemma createOTP_count:
  assumes "length (active_codes t e' p' store) \<le> 1"
  shows "length (active_codes t e' p' (fst (createOTP cfg rnd now i e p store))) \<le> 1"
proof (cases "(e', p') = (schema_email e, p)")
  case True
  then have [simp]: "e' = schema_email e" "p' = p" by simp_all
  from createOTP_store[of cfg rnd now i e p store] show ?thesis
    by (auto simp: active_codes_append active_codes_same_pair active_codes_single)
next
  case False
  from createOTP_store[of cfg rnd now i e p store] show ?thesis
    using assms
    by (auto simp: active_codes_append active_codes_other_pair[OF False]
          active_codes_issued_other[OF False])
qed

lemma createOTP_set:
  "d \<in> set (fst (createOTP cfg rnd now i e p store))
     \<Longrightarrow> d = issued cfg rnd now i e p \<or> (d \<in> set store \<and> \<not> otp_pair (schema_email e) p d)"
  using createOTP_store[of cfg rnd now i e p store] by auto

lemma createOTP_invariant:
  assumes "one_active_per_pair t store"
  shows "one_active_per_pair t (fst (createOTP cfg rnd now i e p store))"
  unfolding one_active_per_pair_def list_all_iff
proof
  fix d assume d: "d \<in> set (fst (createOTP cfg rnd now i e p store))"
  let ?s' = "fst (createOTP cfg rnd now i e p store)"
  from createOTP_set[OF d]
  show "length (active_codes t (otp_email d) (otp_purpose d) ?s') \<le> 1"
  proof
    assume "d = issued cfg rnd now i e p"
    then have k: "otp_email d = schema_email e" "otp_purpose d = p"
      by (simp_all add: issued_def)
    from createOTP_store[of cfg rnd now i e p store] show ?thesis
      by (auto simp: k active_codes_append active_codes_same_pair active_codes_single)
  next
    assume "d \<in> set store \<and> \<not> otp_pair (schema_email e) p d"
    then have "length (active_codes t (otp_email d) (otp_purpose d) store) \<le> 1"
      using assms by (simp add: one_active_per_pair_def list_all_iff)
    then show ?thesis by (rule createOTP_count)
  qed
qed

text \<open>
  Claim C5. Issuing two codes for (e, p) in sequence leaves exactly one active code for
  (e, p): the second issue deletes every earlier code of the pair and inserts exactly one new
  document, and each issue keeps the invariant that every pair has at most one active code.
  The codes of \<open>e\<close> are those stored under \<open>e\<close> as the schema casts it (lower case, trimmed).
  The address is ASCII and not blank, the configured code length and expiry are positive
  (the defaults 6 and 10 are) and the expiry is a valid date; the code is active from its
  issue until its expiry.
\<close>

theorem createOTP_one_active_code:
  assumes "ascii e" and "schema_email e \<noteq> []"
    and "0 < parseInt_or (OTP_LENGTH cfg) 6"
    and "0 < parseInt_or (OTP_EXPIRY_MINUTES cfg) 10"
    and "valid_date (now2 + parseInt_or (OTP_EXPIRY_MINUTES cfg) 10 * 60 * 1000)"
    and "now2 \<le> t"
    and "t < now2 + parseInt_or (OTP_EXPIRY_MINUTES cfg) 10 * 60 * 1000"
  shows "(let store1 = fst (createOTP cfg rnd1 now1 id1 e p store);
              store2 = fst (createOTP cfg rnd2 now2 id2 e p store1)
          in length (active_codes t (schema_email e) p store2) = 1
           \<and> store2 = filter (\<lambda>d. \<not> otp_pair (schema_email e) p d) store1
                        @ [issued cfg rnd2 now2 id2 e p]
           \<and> filter (otp_pair (schema_email e) p) store2 = [issued cfg rnd2 now2 id2 e p]
           \<and> (one_active_per_pair t store \<longrightarrow>
                one_active_per_pair t store1 \<and> one_active_per_pair t store2))"
  unfolding Let_def
proof (intro conjI impI)
  let ?s1 = "fst (createOTP cfg rnd1 now1 id1 e p store)"
  show "length (active_codes t (schema_email e) p (fst (createOTP cfg rnd2 now2 id2 e p ?s1)))
          = 1"
    by (simp add: active_after_createOTP[OF assms(2,3,5,7)])
  show "fst (createOTP cfg rnd2 now2 id2 e p ?s1)
          = filter (\<lambda>d. \<not> otp_pair (schema_email e) p d) ?s1 @ [issued cfg rnd2 now2 id2 e p]"
    by (simp add: createOTP_ok[OF assms(2,3,5)])
  show "filter (otp_pair (schema_email e) p) (fst (createOTP cfg rnd2 now2 id2 e p ?s1))
          = [issued cfg rnd2 now2 id2 e p]"
    by (rule pair_after_createOTP[OF assms(2,3,5)])
  assume inv: "one_active_per_pair t store"
  then show "one_active_per_pair t ?s1" by (rule createOTP_invariant)
  then show "one_active_per_pair t (fst (createOTP cfg rnd2 now2 id2 e p ?s1))"
    by (rule createOTP_invariant)
qed

text \<open>An instance under the default configuration, for an address in upper case with a
  space around it.\<close>

theorem createOTP_one_active_code_witness:
  "ascii '' Alice@Example.COM '' \<and> schema_email '' Alice@Example.COM '' \<noteq> []
   \<and> 0 < parseInt_or (OTP_LENGTH env_default) 6
   \<and> 0 < parseInt_or (OTP_EXPIRY_MINUTES env_default) 10
   \<and> valid_date (5000 + parseInt_or (OTP_EXPIRY_MINUTES env_default) 10 * 60 * 1000)
   \<and> one_active_per_pair 5000 [otp_example]
   \<and> length (active_codes 5000 ''alice@example.com'' email_verification
        (fst (createOTP env_default (\<lambda>i. 7) 5000 3 '' Alice@Example.COM '' email_verification
           (fst (createOTP env_default rnd_example 2000 2 '' Alice@Example.COM ''
              email_verification [otp_example]))))) = 1
   \<and> one_active_per_pair 5000
        (fst (createOTP env_default (\<lambda>i. 7) 5000 3 '' Alice@Example.COM '' email_verification
           (fst (createOTP env_default rnd_example 2000 2 '' Alice@Example.COM ''
              email_verification [otp_example]))))"
proof -
  let ?e = "'' Alice@Example.COM ''"
  have h0: "ascii ?e" by (rule schema_email_alice)
  have h1: "schema_email ?e \<noteq> []" by (simp add: schema_email_alice)
  have h2: "0 < parseInt_or (OTP_LENGTH env_default) 6"
    by (simp add: parseInt_or_def env_default_def)
  have h3: "0 < parseInt_or (OTP_EXPIRY_MINUTES env_default) 10"
    by (simp add: parseInt_or_def env_default_def)
  have h4: "valid_date (5000 + parseInt_or (OTP_EXPIRY_MINUTES env_default) 10 * 60 * 1000)"
    by (simp add: parseInt_or_def env_default_def valid_date_def)
  have h5: "(5000::int) \<le> 5000" by simp
  have h6: "5000 < 5000 + parseInt_or (OTP_EXPIRY_MINUTES env_default) 10 * 60 * 1000"
    by (simp add: parseInt_or_def env_default_def)
  have inv: "one_active_per_pair 5000 [otp_example]"
    by (simp add: one_active_per_pair_def active_codes_def)
  note r = createOTP_one_active_code[OF h0 h1 h2 h3 h4 h5 h6, where ?rnd2.0 = "\<lambda>i. 7"
         and ?id2.0 = 3 and p = email_verification and ?rnd1.0 = rnd_example
         and ?now1.0 = 2000 and ?id1.0 = 2 and store = "[otp_example]",
         unfolded Let_def schema_email_alice]
  from r inv h0 h1 h2 h3 h4 show ?thesis by blast
qed


subsection \<open>The collection of codes stays well-formed\<close>

text \<open>
  Every collection built from the empty one by \<open>createOTP\<close> (with a fresh \<open>_id\<close>),
  \<open>verifyOTP\<close> and \<open>incrementAttempts\<close> is well-formed, so it has at most one code per
  (email, purpose).
\<close>

lemma otp_wf_empty: "otp_wf []"
  by (simp add: otp_wf_def one_code_per_pair_def)

lemma issued_key: "otp_key (issued cfg rnd now i e p) = (schema_email e, p)"
  by (simp add: otp_key_def issued_def)

lemma issued_id: "otp_id (issued cfg rnd now i e p) = i"
  by (simp add: issued_def)

lemma createOTP_wf:
  assumes "otp_wf store" "i \<notin> otp_id ` set store"
  shows "otp_wf (fst (createOTP cfg rnd now i e p store))"
proof -
  let ?f = "filter (\<lambda>d. \<not> otp_pair (schema_email e) p d) store"
  have f: "distinct (map otp_id ?f)" "distinct (map otp_key ?f)"
    using assms(1) by (simp_all add: otp_wf_def one_code_per_pair_def distinct_map_filter)
  have k: "(schema_email e, p) \<notin> otp_key ` set ?f" by (auto simp: otp_key_def otp_pair_def)
  have n: "i \<notin> otp_id ` set ?f" using assms(2) by auto
  from createOTP_store[of cfg rnd now i e p store] show ?thesis
    using f k n by (auto simp: otp_wf_def one_code_per_pair_def issued_key issued_id)
qed

lemma save_otp_maps:
  assumes "distinct (map otp_id store)" "d \<in> set store" "otp_id d' = otp_id d"
    and "otp_key d' = otp_key d"
  shows "map otp_id (save_otp d' store) = map otp_id store"
    and "map otp_key (save_otp d' store) = map otp_key store"
proof -
  have inj: "inj_on otp_id (set store)" using assms(1) by (simp add: distinct_map)
  have "\<And>y. y \<in> set store \<Longrightarrow> otp_id y = otp_id d' \<Longrightarrow> y = d"
    using inj assms(2,3) by (auto dest: inj_onD)
  then show "map otp_id (save_otp d' store) = map otp_id store"
    and "map otp_key (save_otp d' store) = map otp_key store"
    using assms(3,4) by (auto simp: save_otp_def)
qed

lemma verifyOTP_wf:
  assumes "otp_wf store"
  shows "otp_wf (fst (verifyOTP now e c p store))"
proof (cases "find (\<lambda>d. otp_triple (schema_email e) c p d \<and> \<not> otp_isUsed d
                         \<and> otp_expiresAt d > now) store")
  case None
  then show ?thesis using assms by (simp add: verifyOTP_def split: option.splits)
next
  case (Some d)
  then have d: "d \<in> set store" by (auto simp: find_Some_iff)
  have "otp_wf (save_otp (d\<lparr>otp_isUsed := True\<rparr>) store)"
    using assms save_otp_maps[of store d "d\<lparr>otp_isUsed := True\<rparr>"] d
    by (simp add: otp_wf_def one_code_per_pair_def otp_key_def)
  with Some assms show ?thesis by (simp add: verifyOTP_def)
qed

lemma updateOne_map:
  assumes "\<And>x. g (f x) = g x"
  shows "map g (updateOne P f xs) = map g xs"
  using assms by (induction xs) auto

lemma incrementAttempts_wf:
  "otp_wf store \<Longrightarrow> otp_wf (incrementAttempts e c p store)"
  by (simp add: otp_wf_def one_code_per_pair_def incrementAttempts_def updateOne_map
        otp_key_def)


section \<open>Properties of the invitations\<close>

lemma find_None_list_ex: "find P xs = None \<longleftrightarrow> \<not> list_ex P xs"
  by (auto simp: find_None_iff list_ex_iff)

lemma createInvitation_conflict_iff:
  "snd (createInvitation cfg now i tok data store) = Inl InvitationAlreadySent
     \<longleftrightarrow> list_ex (pending_for now (schema_email (d_email data)) (d_workspaceId data)) store"
proof (cases "find (pending_for now (schema_email (d_email data)) (d_workspaceId data)) store")
  case None
  then show ?thesis
    by (simp add: createInvitation_def Let_def find_None_list_ex[symmetric])
next
  case (Some a)
  then have "list_ex (pending_for now (schema_email (d_email data)) (d_workspaceId data)) store"
    using find_None_list_ex[of "pending_for now (schema_email (d_email data)) (d_workspaceId data)" store]
    by simp
  with Some show ?thesis by (simp add: createInvitation_def Let_def)
qed

lemma createInvitation_ok:
  assumes "\<not> list_ex (pending_for now (schema_email (d_email data)) (d_workspaceId data)) store"
    and "schema_email (d_email data) \<noteq> []" "tok \<noteq> []"
    and "default_to ''member'' (d_role data) \<in> set invitation_roles"
    and "\<not> list_ex (\<lambda>y. inv_token y = tok) store"
    and "valid_date (now + parseInt_or (INVITATION_EXPIRY_HOURS cfg) 72 * 60 * 60 * 1000)"
  shows "createInvitation cfg now i tok data store
           = (store @ [created cfg now i tok data], Inr (created cfg now i tok data))"
proof -
  from assms(1) have "find (pending_for now (schema_email (d_email data)) (d_workspaceId data)) store = None"
    by (simp add: find_None_list_ex)
  then show ?thesis using assms(2-6)
    by (simp add: createInvitation_def Let_def created_def default_to_def)
qed

lemma save_invitation_set:
  "y \<in> set (save_invitation d' store) \<Longrightarrow> y = d' \<or> (y \<in> set store \<and> inv_id y \<noteq> inv_id d')"
  by (auto simp: save_invitation_def split: if_splits)

lemma save_invitation_mem:
  "d \<in> set store \<Longrightarrow> inv_id d' = inv_id d \<Longrightarrow> d' \<in> set (save_invitation d' store)"
  by (force simp: save_invitation_def)

lemma save_invitation_tokens:
  assumes "d \<in> set store" "inv_token d' = inv_token d"
    and "\<not> list_ex (\<lambda>y. inv_token y = tok) store"
  shows "\<not> list_ex (\<lambda>y. inv_token y = tok) (save_invitation d' store)"
  using assms by (auto simp: save_invitation_def list_ex_iff)

text \<open>After the one pending invitation of a pair has been resolved, none is pending.\<close>

lemma resolved_no_pending:
  assumes "list_all (\<lambda>y. pending_for now e w y \<longrightarrow> y = old) store"
    and "inv_id old' = inv_id old" "inv_status old' \<noteq> Pending"
  shows "\<not> list_ex (pending_for now e w) (save_invitation old' store)"
proof
  assume "list_ex (pending_for now e w) (save_invitation old' store)"
  then obtain y where y: "y \<in> set (save_invitation old' store)" "pending_for now e w y"
    by (auto simp: list_ex_iff)
  from save_invitation_set[OF y(1)] show False
  proof
    assume "y = old'"
    with y(2) assms(3) show False by (simp add: pending_for_def)
  next
    assume "y \<in> set store \<and> inv_id y \<noteq> inv_id old'"
    with assms(1) y(2) have "y = old" "inv_id y \<noteq> inv_id old'"
      by (auto simp: list_all_iff)
    with assms(2) show False by simp
  qed
qed

lemma accept_ok:
  assumes "inv_status old = Pending" "now1 \<le> inv_expiresAt old"
  shows "accept now1 uid old store =
    (save_invitation (old\<lparr>inv_status := Accepted, inv_acceptedBy := Some uid,
                          inv_acceptedAt := Some now1\<rparr>) store,
     Inr (old\<lparr>inv_status := Accepted, inv_acceptedBy := Some uid, inv_acceptedAt := Some now1\<rparr>))"
  using assms by (simp add: accept_def Let_def)

lemma decline_ok:
  assumes "inv_status old = Pending"
  shows "decline old store =
    (save_invitation (old\<lparr>inv_status := Declined\<rparr>) store, Inr (old\<lparr>inv_status := Declined\<rparr>))"
  using assms by (simp add: decline_def Let_def)

lemma create_after_resolved:
  assumes "old \<in> set store"
    and "list_all (\<lambda>y. pending_for now (schema_email (d_email data)) (d_workspaceId data) y \<longrightarrow> y = old) store"
    and "schema_email (d_email data) \<noteq> []" "tok \<noteq> []"
    and "default_to ''member'' (d_role data) \<in> set invitation_roles"
    and "\<not> list_ex (\<lambda>y. inv_token y = tok) store"
    and "inv_id old' = inv_id old" "inv_token old' = inv_token old" "inv_status old' \<noteq> Pending"
    and "valid_date (now + parseInt_or (INVITATION_EXPIRY_HOURS cfg) 72 * 60 * 60 * 1000)"
  shows "createInvitation cfg now i tok data (save_invitation old' store)
           = (save_invitation old' store @ [created cfg now i tok data],
              Inr (created cfg now i tok data))"
proof (rule createInvitation_ok)
  show "\<not> list_ex (pending_for now (schema_email (d_email data)) (d_workspaceId data)) (save_invitation old' store)"
    by (rule resolved_no_pending[OF assms(2,7,9)])
  show "\<not> list_ex (\<lambda>y. inv_token y = tok) (save_invitation old' store)"
    by (rule save_invitation_tokens[OF assms(1,8,6)])
qed (fact assms)+

text \<open>
  Claim C6. \<open>createInvitation\<close> fails with the already-sent error exactly when the
  collection holds a pending, unexpired invitation for the (email, workspaceId) pair, the
  invitations of an address being those stored under it as the schema casts it (lower case,
  trimmed). When the one pending invitation \<open>old\<close> of the pair has been accepted or declined,
  a creation for the pair (an address that is not blank, a role of the schema, a token not
  in use, an expiry that is a valid date) succeeds: it inserts a pending invitation with the
  new token and the expiry computed from the time of the call. The address is ASCII.
\<close>

theorem createInvitation_conflict:
  assumes "ascii (d_email data)"
  shows
  "(snd (createInvitation cfg now i tok data store) = Inl InvitationAlreadySent
      \<longleftrightarrow> list_ex (pending_for now (schema_email (d_email data)) (d_workspaceId data)) store)
   \<and> (old \<in> set store \<and> inv_status old = Pending
      \<and> list_all (\<lambda>y. pending_for now (schema_email (d_email data)) (d_workspaceId data) y
                       \<longrightarrow> y = old) store
      \<and> schema_email (d_email data) \<noteq> [] \<and> tok \<noteq> []
      \<and> default_to ''member'' (d_role data) \<in> set invitation_roles
      \<and> \<not> list_ex (\<lambda>y. inv_token y = tok) store
      \<and> valid_date (now + parseInt_or (INVITATION_EXPIRY_HOURS cfg) 72 * 60 * 60 * 1000)
      \<and> ((now1 \<le> inv_expiresAt old \<and> store1 = fst (accept now1 uid old store))
           \<or> store1 = fst (decline old store))
      \<longrightarrow> createInvitation cfg now i tok data store1
            = (store1 @ [created cfg now i tok data], Inr (created cfg now i tok data))
          \<and> \<not> list_ex (pending_for now (schema_email (d_email data)) (d_workspaceId data))
                store1
          \<and> inv_status (created cfg now i tok data) = Pending
          \<and> inv_email (created cfg now i tok data) = schema_email (d_email data)
          \<and> inv_workspaceId (created cfg now i tok data) = d_workspaceId data
          \<and> inv_token (created cfg now i tok data) = tok
          \<and> inv_expiresAt (created cfg now i tok data)
              = now + parseInt_or (INVITATION_EXPIRY_HOURS cfg) 72 * 60 * 60 * 1000)"
proof (intro conjI impI)
  show "snd (createInvitation cfg now i tok data store) = Inl InvitationAlreadySent
      \<longleftrightarrow> list_ex (pending_for now (schema_email (d_email data)) (d_workspaceId data)) store"
    by (rule createInvitation_conflict_iff)
next
  assume a: "old \<in> set store \<and> inv_status old = Pending
      \<and> list_all (\<lambda>y. pending_for now (schema_email (d_email data)) (d_workspaceId data) y
                       \<longrightarrow> y = old) store
      \<and> schema_email (d_email data) \<noteq> [] \<and> tok \<noteq> []
      \<and> default_to ''member'' (d_role data) \<in> set invitation_roles
      \<and> \<not> list_ex (\<lambda>y. inv_token y = tok) store
      \<and> valid_date (now + parseInt_or (INVITATION_EXPIRY_HOURS cfg) 72 * 60 * 60 * 1000)
      \<and> ((now1 \<le> inv_expiresAt old \<and> store1 = fst (accept now1 uid old store))
           \<or> store1 = fst (decline old store))"
  then obtain old' where s1: "store1 = save_invitation old' store"
    and i': "inv_id old' = inv_id old" "inv_token old' = inv_token old"
            "inv_status old' \<noteq> Pending"
  proof -
    from a have "(now1 \<le> inv_expiresAt old \<and> store1 = fst (accept now1 uid old store))
           \<or> store1 = fst (decline old store)" by blast
    then show ?thesis
    proof
      assume "now1 \<le> inv_expiresAt old \<and> store1 = fst (accept now1 uid old store)"
      with a have "store1 = save_invitation (old\<lparr>inv_status := Accepted,
          inv_acceptedBy := Some uid, inv_acceptedAt := Some now1\<rparr>) store"
        by (simp add: accept_ok)
      then show ?thesis by (rule that) simp_all
    next
      assume "store1 = fst (decline old store)"
      with a have "store1 = save_invitation (old\<lparr>inv_status := Declined\<rparr>) store"
        by (simp add: decline_ok)
      then show ?thesis by (rule that) simp_all
    qed
  qed
  from a have h: "old \<in> set store"
      "list_all (\<lambda>y. pending_for now (schema_email (d_email data)) (d_workspaceId data) y
                       \<longrightarrow> y = old) store"
      "schema_email (d_email data) \<noteq> []" "tok \<noteq> []"
      "default_to ''member'' (d_role data) \<in> set invitation_roles"
      "\<not> list_ex (\<lambda>y. inv_token y = tok) store"
    by blast+
  from a have v: "valid_date (now + parseInt_or (INVITATION_EXPIRY_HOURS cfg) 72 * 60 * 60 * 1000)"
    by blast
  show "createInvitation cfg now i tok data store1
            = (store1 @ [created cfg now i tok data], Inr (created cfg now i tok data))"
    unfolding s1 by (rule create_after_resolved[OF h i' v])
  show "\<not> list_ex (pending_for now (schema_email (d_email data)) (d_workspaceId data)) store1"
    unfolding s1 by (rule resolved_no_pending[OF h(2) i'(1,3)])
  show "inv_status (created cfg now i tok data) = Pending"
    by (simp add: created_def)
  show "inv_email (created cfg now i tok data) = schema_email (d_email data)"
    by (simp add: created_def)
  show "inv_workspaceId (created cfg now i tok data) = d_workspaceId data"
    by (simp add: created_def)
  show "inv_token (created cfg now i tok data) = tok"
    by (simp add: created_def)
  show "inv_expiresAt (created cfg now i tok data)
              = now + parseInt_or (INVITATION_EXPIRY_HOURS cfg) 72 * 60 * 60 * 1000"
    by (simp add: created_def)
qed

text \<open>
  An instance, for an address in upper case with a space around it: the conflict while the
  invitation is pending, the success after \<open>accept\<close> and after \<open>decline\<close>.
\<close>

lemma schema_email_carol:
  "schema_email (d_email data_example) = ''carol@example.com''"
  "ascii (d_email data_example)"
  by code_simp+

theorem createInvitation_conflict_witness:
  "ascii (d_email data_example)
   \<and> inv_example \<in> set [inv_example] \<and> inv_status inv_example = Pending
   \<and> list_all (\<lambda>y. pending_for 2000 ''carol@example.com'' (d_workspaceId data_example) y
                  \<longrightarrow> y = inv_example) [inv_example]
   \<and> valid_date (2000 + parseInt_or (INVITATION_EXPIRY_HOURS env_default) 72 * 60 * 60 * 1000)
   \<and> 1000 \<le> inv_expiresAt inv_example
   \<and> snd (createInvitation env_default 2000 21 ''c3d4'' data_example [inv_example])
       = Inl InvitationAlreadySent
   \<and> snd (createInvitation env_default 2000 21 ''c3d4'' data_example
            (fst (accept 1000 7 inv_example [inv_example])))
       = Inr (created env_default 2000 21 ''c3d4'' data_example)
   \<and> snd (createInvitation env_default 2000 21 ''c3d4'' data_example
            (fst (decline inv_example [inv_example])))
       = Inr (created env_default 2000 21 ''c3d4'' data_example)"
proof -
  have h0: "ascii (d_email data_example)" by (rule schema_email_carol)
  have h1: "inv_example \<in> set [inv_example]" by simp
  have h2: "inv_status inv_example = Pending" by (simp add: inv_example_def)
  have h3: "list_all (\<lambda>y. pending_for 2000 ''carol@example.com'' (d_workspaceId data_example) y
                  \<longrightarrow> y = inv_example) [inv_example]" by simp
  have h4: "''carol@example.com'' \<noteq> [] \<and> ''c3d4'' \<noteq> []
     \<and> default_to ''member'' (d_role data_example) \<in> set invitation_roles
     \<and> \<not> list_ex (\<lambda>y. inv_token y = ''c3d4'') [inv_example]"
    by (simp add: data_example_def default_to_def invitation_roles_def inv_example_def)
  have h5: "1000 \<le> inv_expiresAt inv_example" by (simp add: inv_example_def)
  have h6: "valid_date (2000 + parseInt_or (INVITATION_EXPIRY_HOURS env_default) 72
              * 60 * 60 * 1000)"
    by (simp add: parseInt_or_def env_default_def valid_date_def)
  have p: "list_ex (pending_for 2000 ''carol@example.com'' (d_workspaceId data_example))
             [inv_example]"
    by (simp add: pending_for_def data_example_def inv_example_def)
  note c = createInvitation_conflict[OF h0, where cfg = env_default and now = 2000 and i = 21
      and tok = "''c3d4''" and store = "[inv_example]"
      and old = inv_example and ?now1.0 = 1000 and uid = 7, unfolded schema_email_carol]
  from c[of "fst (accept 1000 7 inv_example [inv_example])"] h1 h2 h3 h4 h5 h6
  have a: "createInvitation env_default 2000 21 ''c3d4'' data_example
            (fst (accept 1000 7 inv_example [inv_example]))
       = (fst (accept 1000 7 inv_example [inv_example])
            @ [created env_default 2000 21 ''c3d4'' data_example],
          Inr (created env_default 2000 21 ''c3d4'' data_example))" by blast
  from c[of "fst (decline inv_example [inv_example])"] h1 h2 h3 h4 h6
  have d: "createInvitation env_default 2000 21 ''c3d4'' data_example
            (fst (decline inv_example [inv_example]))
       = (fst (decline inv_example [inv_example])
            @ [created env_default 2000 21 ''c3d4'' data_example],
          Inr (created env_default 2000 21 ''c3d4'' data_example))" by blast
  from c[of "[]"] p
  have f: "snd (createInvitation env_default 2000 21 ''c3d4'' data_example [inv_example])
       = Inl InvitationAlreadySent" by blast
  from h0 h1 h2 h3 h5 h6 f show ?thesis by (simp add: a d)
qed

lemma find_token_None:
  assumes "\<And>y. y \<in> set store \<Longrightarrow> inv_token y = tok \<Longrightarrow> inv_status y \<noteq> Pending"
  shows "findByToken now tok store = Inl InvalidOrExpiredInvitation"
proof -
  have "find (\<lambda>i. inv_token i = tok \<and> inv_status i = Pending \<and> inv_expiresAt i > now) store
          = None"
    using assms by (auto simp: find_None_iff)
  then show ?thesis by (simp add: findByToken_def)
qed

text \<open>
  Claim C7. For a stored invitation that is pending and whose expiry is in the past, \<open>accept\<close>
  sets its status to expired, saves that, and fails with \<open>Invitation has expired\<close>; from then
  on \<open>findByToken\<close> with that token fails with \<open>Invalid or expired invitation\<close> at any
  time. Tokens are unique in the collection (the unique index).
\<close>

theorem accept_expired:
  assumes "old \<in> set store"
    and "distinct (map inv_token store)"
    and "inv_status old = Pending"
    and "inv_expiresAt old < now"
  shows "accept now uid old store
           = (save_invitation (old\<lparr>inv_status := Expired\<rparr>) store, Inl InvitationExpired)
       \<and> old\<lparr>inv_status := Expired\<rparr> \<in> set (save_invitation (old\<lparr>inv_status := Expired\<rparr>) store)
       \<and> old \<notin> set (save_invitation (old\<lparr>inv_status := Expired\<rparr>) store)
       \<and> (\<forall>now'. findByToken now' (inv_token old)
                    (save_invitation (old\<lparr>inv_status := Expired\<rparr>) store)
                  = Inl InvalidOrExpiredInvitation)"
proof (intro conjI allI)
  let ?old' = "old\<lparr>inv_status := Expired\<rparr>"
  show "accept now uid old store = (save_invitation ?old' store, Inl InvitationExpired)"
    using assms(3,4) by (simp add: accept_def)
  show "?old' \<in> set (save_invitation ?old' store)"
    by (rule save_invitation_mem[OF assms(1)]) simp
  show "old \<notin> set (save_invitation ?old' store)"
  proof
    assume "old \<in> set (save_invitation ?old' store)"
    from save_invitation_set[OF this] assms(3) show False
      by (auto dest: arg_cong[where f = inv_status])
  qed
  fix now'
  have inj: "inj_on inv_token (set store)" using assms(2) by (simp add: distinct_map)
  show "findByToken now' (inv_token old) (save_invitation ?old' store)
          = Inl InvalidOrExpiredInvitation"
  proof (rule find_token_None)
    fix y assume y: "y \<in> set (save_invitation ?old' store)" "inv_token y = inv_token old"
    from save_invitation_set[OF y(1)] show "inv_status y \<noteq> Pending"
    proof
      assume "y = ?old'" then show ?thesis by simp
    next
      assume "y \<in> set store \<and> inv_id y \<noteq> inv_id ?old'"
      then have "y \<in> set store" "inv_id y \<noteq> inv_id old" by simp_all
      with inj y(2) assms(1) have "y = old" by (auto dest: inj_onD)
      with \<open>inv_id y \<noteq> inv_id old\<close> show ?thesis by simp
    qed
  qed
qed

text \<open>
  An instance: the invitation expires at 259200000 and is accepted one millisecond later.
\<close>

theorem accept_expired_witness:
  "inv_example \<in> set [inv_example] \<and> distinct (map inv_token [inv_example])
   \<and> inv_status inv_example = Pending \<and> inv_expiresAt inv_example < 259200001
   \<and> accept 259200001 7 inv_example [inv_example]
       = ([inv_example\<lparr>inv_status := Expired\<rparr>], Inl InvitationExpired)
   \<and> findByToken 259200002 ''a1b2'' [inv_example\<lparr>inv_status := Expired\<rparr>]
       = Inl InvalidOrExpiredInvitation"
proof -
  have h1: "inv_example \<in> set [inv_example]" by simp
  have h2: "distinct (map inv_token [inv_example])" by simp
  have h3: "inv_status inv_example = Pending" by (simp add: inv_example_def)
  have h4: "inv_expiresAt inv_example < 259200001" by (simp add: inv_example_def)
  have s: "save_invitation (inv_example\<lparr>inv_status := Expired\<rparr>) [inv_example]
             = [inv_example\<lparr>inv_status := Expired\<rparr>]"
    by (simp add: save_invitation_def)
  have t: "inv_token inv_example = ''a1b2''" by (simp add: inv_example_def)
  from accept_expired[OF h1 h2 h3 h4, of 7] h1 h2 h3 h4
  show ?thesis unfolding s t by blast
qed




section \<open>Removing the owner\<close>

text \<open>
  Claim C8, as stated, fails: a requester who is neither the owner nor an admin member and
  asks to remove the owner is turned away by the permission check, with \<open>Access denied\<close>
  and not with \<open>Cannot remove workspace owner\<close>.
\<close>

theorem removeMember_owner_access_denied:
  "toString (w_owner ws_example) = ''000000000000000000000001''
   \<and> removeMember 2 10 ''000000000000000000000001'' db_workspace
       = (db_workspace, Inl (403, AccessDenied))
   \<and> snd (removeMember 2 10 ''000000000000000000000001'' db_workspace)
       \<noteq> Inl (400, CannotRemoveOwner)"
  by code_simp

text \<open>
  Claim C8, amended. For every workspace \<open>w\<close> and \<open>userId\<close> the text of \<open>w.owner\<close> as
  \<open>toString()\<close> gives it, the remove-member operation fails and leaves the database, so
  \<open>w.members\<close> too, unchanged: with \<open>Cannot remove workspace owner\<close> when the requester passes
  the permission check (the owner, an admin member, or the user named by \<open>userId\<close>, who is
  the owner here), and with \<open>Access denied\<close> otherwise, since the permission check comes
  first.
\<close>

theorem removeMember_owner:
  assumes "find (\<lambda>w. w_id w = workspaceId) (workspaces db) = Some w"
    and "userId = toString (w_owner w)"
  shows "removeMember reqUserId workspaceId userId db =
           (db, Inl (if w_owner w = reqUserId
                        \<or> list_ex (\<lambda>m. m_user m = reqUserId \<and> m_role m = ''admin'') (w_members w)
                        \<or> userId = toString reqUserId
                     then (400, CannotRemoveOwner) else (403, AccessDenied)))"
  using assms by (auto simp: removeMember_def Let_def)

text \<open>An instance: the owner and a plain member each ask to remove the owner.\<close>

theorem removeMember_owner_witness:
  "find (\<lambda>w. w_id w = 10) (workspaces db_workspace) = Some ws_example
   \<and> ''000000000000000000000001'' = toString (w_owner ws_example)
   \<and> removeMember 1 10 ''000000000000000000000001'' db_workspace
       = (db_workspace, Inl (400, CannotRemoveOwner))
   \<and> removeMember 2 10 ''000000000000000000000001'' db_workspace
       = (db_workspace, Inl (403, AccessDenied))"
proof -
  have h1: "find (\<lambda>w. w_id w = 10) (workspaces db_workspace) = Some ws_example"
    by (simp add: db_workspace_def ws_example_def)
  have h2: "''000000000000000000000001'' = toString (w_owner ws_example)" by code_simp
  have o: "w_owner ws_example = 1" by (simp add: ws_example_def)
  have m: "\<not> list_ex (\<lambda>m. m_user m = 2 \<and> m_role m = ''admin'') (w_members ws_example)"
    by (simp add: ws_example_def)
  have t: "''000000000000000000000001'' \<noteq> toString 2" by code_simp
  from removeMember_owner[OF h1 h2, of 1] removeMember_owner[OF h1 h2, of 2] m h1 h2 o t
  show ?thesis by simp
qed

text \<open>Whatever \<open>userId\<close> is, a removal that goes through keeps the owner's entry in the
  members: the filter drops only the entries whose text is \<open>userId\<close>, and the owner's text
  is not \<open>userId\<close> once the owner guard has been passed.\<close>

lemma removeMember_keeps_owner_entry:
  assumes "find (\<lambda>w. w_id w = workspaceId) (workspaces db) = Some w"
    and "removeMember reqUserId workspaceId userId db = (db', Inr (MemberRemoved w'))"
  shows "filter (\<lambda>m. m_user m = w_owner w) (w_members w')
           = filter (\<lambda>m. m_user m = w_owner w) (w_members w)"
proof -
  from assms have g: "toString (w_owner w) \<noteq> userId"
    and w': "w' = w\<lparr>w_members := filter (\<lambda>m. toString (m_user m) \<noteq> userId) (w_members w)\<rparr>"
    by (auto simp: removeMember_def Let_def split: if_splits prod.splits sum.splits
          option.splits)
  have "\<And>m. m_user m = w_owner w \<Longrightarrow> toString (m_user m) \<noteq> userId"
    using g by simp
  then show ?thesis unfolding w' by (auto intro: filter_cong)
qed

text \<open>The comparisons are on text: when \<open>userId\<close> is the owner's id with its hexadecimal
  letters in upper case, the owner guard and the filter both miss it, the members are
  unchanged, and \<open>findByIdAndUpdate\<close>, which casts the text, pulls the workspace from the
  owner's list.\<close>

lemma hex_examples:
  "toString 171 = ''0000000000000000000000ab''"
  "toString 2 = ''000000000000000000000002''"
  "castObjectId ''0000000000000000000000AB'' = Some 171"
  by code_simp+

lemma removeMember_owner_upper_case:
  "toString (w_owner ws_hex) = ''0000000000000000000000ab''
   \<and> castObjectId ''0000000000000000000000AB'' = Some (w_owner ws_hex)
   \<and> removeMember 171 10 ''0000000000000000000000AB'' db_hex
       = (db_hex\<lparr>users := [user_owner\<lparr>u_id := 171, u_workspaces := []\<rparr>]\<rparr>,
          Inr (MemberRemoved ws_hex))"
  by (simp add: removeMember_def db_hex_def ws_hex_def user_owner_def hex_examples
        save_workspace_def validate_workspace_def workspace_roles_def Let_def)

section \<open>Accepting an invitation for a manager\<close>

lemma findByToken_Inr:
  assumes "findByToken now token store = Inr old"
  shows "old \<in> set store \<and> inv_token old = token \<and> inv_status old = Pending
         \<and> now < inv_expiresAt old"
proof -
  from assms have "find (\<lambda>i. inv_token i = token \<and> inv_status i = Pending
                          \<and> inv_expiresAt i > now) store = Some old"
    by (simp add: findByToken_def split: option.splits)
  then show ?thesis by (auto simp: find_Some_iff)
qed

lemma manager_not_workspace_role:
  "inv_role old = ''manager'' \<Longrightarrow>
   \<not> validate_workspace (w\<lparr>w_members := w_members w @ [\<lparr> m_user = u, m_role = inv_role old \<rparr>]\<rparr>)"
  by (simp add: validate_workspace_def workspace_roles_def)

lemma acceptInvitation_grant_manager:
  assumes "inv_role old = ''manager''"
    and "find (\<lambda>w. w_id w = inv_workspaceId old) (workspaces db) = Some w"
  shows "acceptInvitation_grant hash salt old user db = (db, Inl (400, ValidationError))"
  using assms manager_not_workspace_role[OF assms(1), of w "u_id user"]
  by (simp add: acceptInvitation_grant_def save_workspace_def Let_def)

text \<open>
  Claim C9. The role \<open>manager\<close> is in the invitation schema's enumeration and not in the
  workspace schema's. When a valid invitation with that role is accepted by a verified user
  for an existing workspace, the invitation is first saved as accepted; then the save of the
  workspace with the pushed member is rejected by validation. The handler fails, the
  workspaces are unchanged, and the invitation stays accepted.
\<close>

theorem acceptInvitation_manager:
  assumes "token \<noteq> []"
    and "findByToken now token (invitations db) = Inr old"
    and "inv_role old = ''manager''"
    and "acceptInvitation_user userId old (users db) = Inr user"
    and "u_emailVerified user"
    and "find (\<lambda>w. w_id w = inv_workspaceId old) (workspaces db) = Some w"
  shows "acceptInvitation hash salt now token userId db =
           (db\<lparr>invitations :=
                 save_invitation (old\<lparr>inv_status := Accepted, inv_acceptedBy := Some (u_id user),
                                       inv_acceptedAt := Some now\<rparr>) (invitations db)\<rparr>,
            Inl (400, ValidationError))
       \<and> old\<lparr>inv_status := Accepted, inv_acceptedBy := Some (u_id user),
               inv_acceptedAt := Some now\<rparr>
           \<in> set (save_invitation (old\<lparr>inv_status := Accepted,
                     inv_acceptedBy := Some (u_id user), inv_acceptedAt := Some now\<rparr>)
                   (invitations db))
       \<and> ''manager'' \<in> set invitation_roles \<and> ''manager'' \<notin> set workspace_roles"
proof (intro conjI)
  let ?acc = "old\<lparr>inv_status := Accepted, inv_acceptedBy := Some (u_id user),
                   inv_acceptedAt := Some now\<rparr>"
  let ?db1 = "db\<lparr>invitations := save_invitation ?acc (invitations db)\<rparr>"
  note f = findByToken_Inr[OF assms(2)]
  have acc: "accept now (u_id user) old (invitations db)
               = (save_invitation ?acc (invitations db), Inr ?acc)"
    using f by (simp add: accept_ok)
  have g: "acceptInvitation_grant hash salt ?acc user ?db1 = (?db1, Inl (400, ValidationError))"
    by (rule acceptInvitation_grant_manager[where w = w]) (simp_all add: assms(3,6))
  show "acceptInvitation hash salt now token userId db = (?db1, Inl (400, ValidationError))"
    using assms(1,5) by (simp add: acceptInvitation_def assms(2,4) acc g)
  show "?acc \<in> set (save_invitation ?acc (invitations db))"
    using f by (intro save_invitation_mem[where d = old]) simp_all
  show "''manager'' \<in> set invitation_roles" by (simp add: invitation_roles_def)
  show "''manager'' \<notin> set workspace_roles" by (simp add: workspace_roles_def)
qed

text \<open>
  An instance: Carol accepts an invitation as manager.
\<close>

theorem acceptInvitation_manager_witness:
  "''a1b2'' \<noteq> []
   \<and> findByToken 1000 ''a1b2'' (invitations db_manager)
       = Inr (inv_example\<lparr>inv_role := ''manager''\<rparr>)
   \<and> acceptInvitation_user None (inv_example\<lparr>inv_role := ''manager''\<rparr>) (users db_manager)
       = Inr user_carol
   \<and> u_emailVerified user_carol
   \<and> find (\<lambda>w. w_id w = 10) (workspaces db_manager) = Some ws_example
   \<and> snd (acceptInvitation hash_example salt_example 1000 ''a1b2'' None db_manager) = Inl (400, ValidationError)
   \<and> map inv_status (invitations (fst (acceptInvitation hash_example salt_example 1000 ''a1b2'' None db_manager)))
       = [Accepted]
   \<and> workspaces (fst (acceptInvitation hash_example salt_example 1000 ''a1b2'' None db_manager))
       = [ws_example]"
proof -
  let ?old = "inv_example\<lparr>inv_role := ''manager''\<rparr>"
  have h1: "''a1b2'' \<noteq> []" by simp
  have h2: "findByToken 1000 ''a1b2'' (invitations db_manager) = Inr ?old"
    by (simp add: findByToken_def db_manager_def inv_example_def)
  have h3: "inv_role ?old = ''manager''" by simp
  have h4: "acceptInvitation_user None ?old (users db_manager) = Inr user_carol"
    by (simp add: acceptInvitation_user_def db_manager_def inv_example_def user_carol_def)
  have h5: "u_emailVerified user_carol" by (simp add: user_carol_def)
  have h6: "find (\<lambda>w. w_id w = inv_workspaceId ?old) (workspaces db_manager) = Some ws_example"
    by (simp add: db_manager_def ws_example_def inv_example_def)
  have w: "inv_workspaceId ?old = 10" by (simp add: inv_example_def)
  have s: "save_invitation (?old\<lparr>inv_status := Accepted, inv_acceptedBy := Some (u_id user_carol),
              inv_acceptedAt := Some 1000\<rparr>) (invitations db_manager)
            = [?old\<lparr>inv_status := Accepted, inv_acceptedBy := Some (u_id user_carol),
              inv_acceptedAt := Some 1000\<rparr>]"
    by (simp add: save_invitation_def db_manager_def)
  have ws: "workspaces db_manager = [ws_example]" by (simp add: db_manager_def)
  from acceptInvitation_manager[OF h1 h2 h3 h4 h5 h6, of hash_example salt_example]
  have "acceptInvitation hash_example salt_example 1000 ''a1b2'' None db_manager =
          (db_manager\<lparr>invitations := [?old\<lparr>inv_status := Accepted,
              inv_acceptedBy := Some (u_id user_carol), inv_acceptedAt := Some 1000\<rparr>]\<rparr>,
           Inl (400, ValidationError))"
    unfolding s by blast
  with h1 h2 h4 h5 h6 show ?thesis by (simp add: ws w)
qed


section \<open>Properties of \<open>verify-email\<close>\<close>

lemma verifyOTP_all_used:
  assumes "\<And>y. y \<in> set s \<Longrightarrow> otp_triple (schema_email e) c p y \<Longrightarrow> otp_isUsed y"
    and "list_ex (otp_triple (schema_email e) c p) s"
  shows "verifyOTP now e c p s = (s, Inl OTPAlreadyUsed)"
proof -
  have 1: "find (\<lambda>d. otp_triple (schema_email e) c p d \<and> \<not> otp_isUsed d \<and> otp_expiresAt d > now) s = None"
    using assms(1) by (auto simp: find_None_iff)
  obtain z where z: "find (otp_triple (schema_email e) c p) s = Some z"
    using assms(2) by (cases "find (otp_triple (schema_email e) c p) s") (auto simp: find_None_iff list_ex_iff)
  then have "z \<in> set s" "otp_triple (schema_email e) c p z"
    by (auto simp: find_Some_iff in_set_conv_nth)
  then have "otp_isUsed z" by (rule assms(1))
  with z 1 show ?thesis by (simp add: verifyOTP_def)
qed

lemma updateOne_set:
  "y \<in> set (updateOne P f xs) \<Longrightarrow> y \<in> set xs \<or> (\<exists>x \<in> set xs. P x \<and> y = f x)"
  by (induction xs) (auto split: if_splits)

lemma updateOne_ex:
  assumes "\<And>x. P x \<Longrightarrow> P (f x)"
  shows "list_ex P xs \<Longrightarrow> list_ex P (updateOne P f xs)"
  using assms by (induction xs) auto

lemma updateOne_none: "\<not> list_ex P xs \<Longrightarrow> updateOne P f xs = xs"
  by (induction xs) auto

lemma incrementAttempts_used:
  assumes "\<And>y. y \<in> set s \<Longrightarrow> otp_triple e c p y \<Longrightarrow> otp_isUsed y"
  shows "y \<in> set (incrementAttempts e' c' p' s) \<Longrightarrow> otp_triple e c p y \<Longrightarrow> otp_isUsed y"
proof -
  assume y: "y \<in> set (incrementAttempts e' c' p' s)" "otp_triple e c p y"
  from updateOne_set[OF y(1)[unfolded incrementAttempts_def]]
  show "otp_isUsed y"
  proof
    assume "y \<in> set s" then show ?thesis using y(2) by (rule assms)
  next
    assume "\<exists>x\<in>set s. otp_triple (schema_email e') c' p' x \<and> y = x\<lparr>otp_attempts := otp_attempts x + 1\<rparr>"
    then obtain x where x: "x \<in> set s" "y = x\<lparr>otp_attempts := otp_attempts x + 1\<rparr>" by blast
    with y(2) have "otp_triple e c p x" by (simp add: otp_triple_def)
    with x(1) have "otp_isUsed x" by (rule assms)
    with x(2) show ?thesis by simp
  qed
qed

lemma incrementAttempts_ex:
  "list_ex (otp_triple (schema_email e) c p) s \<Longrightarrow> list_ex (otp_triple (schema_email e) c p) (incrementAttempts e c p s)"
  unfolding incrementAttempts_def
  by (rule updateOne_ex) (simp add: otp_triple_def)

text \<open>A failed \<open>verifyEmail\<close> whose code is used up stays failed.\<close>

lemma verifyEmail_used:
  assumes "e \<noteq> []" "c \<noteq> []"
    and "\<And>y. y \<in> set (otps db) \<Longrightarrow> otp_triple (schema_email e) c email_verification y \<Longrightarrow> otp_isUsed y"
    and "list_ex (otp_triple (schema_email e) c email_verification) (otps db)"
  shows "verifyEmail hash salt now e c db =
           (db\<lparr>otps := incrementAttempts e c email_verification (otps db)\<rparr>,
            Inl (400, OTPAlreadyUsed))"
  using assms(1,2)
  by (simp add: verifyEmail_def verifyEmail_try_def verifyOTP_all_used[OF assms(3,4)])

lemma used_after_save:
  assumes "one_code_per_pair store" "d \<in> set store" "otp_triple e c p d"
  shows "y \<in> set (save_otp (d\<lparr>otp_isUsed := True\<rparr>) store) \<Longrightarrow> otp_triple e c p y
           \<Longrightarrow> otp_isUsed y"
proof -
  assume y: "y \<in> set (save_otp (d\<lparr>otp_isUsed := True\<rparr>) store)" "otp_triple e c p y"
  have inj: "inj_on otp_key (set store)"
    using assms(1) by (simp add: one_code_per_pair_def distinct_map)
  from save_otp_set[OF y(1)] show "otp_isUsed y"
  proof
    assume "y = d\<lparr>otp_isUsed := True\<rparr>" then show ?thesis by simp
  next
    assume "y \<in> set store \<and> otp_id y \<noteq> otp_id (d\<lparr>otp_isUsed := True\<rparr>)"
    then have "y \<in> set store" "otp_id y \<noteq> otp_id d" by simp_all
    moreover have "otp_key y = otp_key d" using y(2) assms(3) by (simp add: triple_key)
    ultimately have "y = d" using inj assms(2) by (auto dest: inj_onD)
    with \<open>otp_id y \<noteq> otp_id d\<close> show ?thesis by simp
  qed
qed

lemma ex_after_save:
  assumes "d \<in> set store" "otp_triple e c p d"
  shows "list_ex (otp_triple e c p) (save_otp (d\<lparr>otp_isUsed := True\<rparr>) store)"
proof -
  have "d\<lparr>otp_isUsed := True\<rparr> \<in> set (save_otp (d\<lparr>otp_isUsed := True\<rparr>) store)"
    by (rule save_otp_mem[OF assms(1)]) simp
  moreover have "otp_triple e c p (d\<lparr>otp_isUsed := True\<rparr>)"
    using assms(2) by (simp add: otp_triple_def)
  ultimately show ?thesis by (auto simp: list_ex_iff)
qed

lemma updateOne_unique:
  assumes "distinct (map k xs)" and "\<And>x. x \<in> set xs \<Longrightarrow> P x \<Longrightarrow> k x = a"
  shows "updateOne P f xs = map (\<lambda>x. if P x then f x else x) xs"
  using assms
proof (induction xs)
  case Nil
  then show ?case by simp
next
  case (Cons d ds)
  show ?case
  proof (cases "P d")
    case True
    have "\<And>x. x \<in> set ds \<Longrightarrow> \<not> P x"
    proof
      fix x assume x: "x \<in> set ds" "P x"
      then have "k x = a" using Cons.prems(2) by simp
      moreover have "k d = a" using True Cons.prems(2) by simp
      ultimately show False using Cons.prems(1) x(1) by auto
    qed
    then have "map (\<lambda>x. if P x then f x else x) ds = ds"
      by (induction ds) auto
    with True show ?thesis by simp
  next
    case False
    with Cons show ?thesis by simp
  qed
qed

text \<open>The code that \<open>verifyOTP\<close> has marked used is the one document whose attempts the
  \<open>catch\<close> block increments.\<close>

lemma increment_after_save:
  assumes "otp_wf store" "d \<in> set store" "otp_triple (schema_email e) c p d"
  shows "incrementAttempts e c p (save_otp (d\<lparr>otp_isUsed := True\<rparr>) store)
           = map (\<lambda>x. if otp_id x = otp_id d
                       then d\<lparr>otp_isUsed := True, otp_attempts := otp_attempts d + 1\<rparr>
                       else x) store"
proof -
  let ?d1 = "d\<lparr>otp_isUsed := True\<rparr>"
  let ?P = "otp_triple (schema_email e) c p"
  let ?f = "\<lambda>x. x\<lparr>otp_attempts := otp_attempts x + 1\<rparr>"
  from assms(1) have ids: "distinct (map otp_id store)" and keys: "one_code_per_pair store"
    by (simp_all add: otp_wf_def)
  have inj: "inj_on otp_key (set store)"
    using keys by (simp add: one_code_per_pair_def distinct_map)
  have only: "\<And>y. y \<in> set store \<Longrightarrow> ?P y \<Longrightarrow> y = d"
  proof -
    fix y assume y: "y \<in> set store" "?P y"
    then have "otp_key y = otp_key d" using assms(3) by (simp add: triple_key)
    with inj y(1) assms(2) show "y = d" by (auto dest: inj_onD)
  qed
  have P1: "?P ?d1" using assms(3) by (simp add: otp_triple_def)
  have d1: "distinct (map otp_id (save_otp ?d1 store))"
    using save_otp_maps(1)[OF ids assms(2), of ?d1] ids by (simp add: otp_key_def)
  have k: "\<And>x. x \<in> set (save_otp ?d1 store) \<Longrightarrow> ?P x \<Longrightarrow> otp_id x = otp_id d"
  proof -
    fix x assume x: "x \<in> set (save_otp ?d1 store)" "?P x"
    from save_otp_set[OF x(1)] show "otp_id x = otp_id d"
    proof
      assume "x = ?d1" then show ?thesis by simp
    next
      assume "x \<in> set store \<and> otp_id x \<noteq> otp_id ?d1"
      with only x(2) show ?thesis by auto
    qed
  qed
  have "incrementAttempts e c p (save_otp ?d1 store)
          = map (\<lambda>x. if ?P x then ?f x else x) (save_otp ?d1 store)"
    unfolding incrementAttempts_def by (rule updateOne_unique[OF d1 k])
  also have "\<dots> = map (\<lambda>x. if otp_id x = otp_id d
                       then d\<lparr>otp_isUsed := True, otp_attempts := otp_attempts d + 1\<rparr>
                       else x) store"
    using only P1 by (auto simp: save_otp_def)
  finally show ?thesis .
qed

text \<open>
  Claim C10. The user registered under \<open>e\<close> is already verified and \<open>d\<close> is the active
  code (unused, unexpired, fewer than five attempts) for \<open>e\<close> and e-mail verification, stored
  under \<open>e\<close> as the schema casts it, in a well-formed collection; \<open>e\<close> is ASCII.
  \<open>verifyEmail\<close> with that code fails with \<open>Email is already verified\<close>. The database it
  leaves differs from the one before in that one code only: \<open>d\<close> is marked used, by
  \<open>verifyOTP\<close>, and its attempts are one more, by the \<open>catch\<close> block; the users are
  unchanged. Every later \<open>verifyEmail\<close> with the same code fails with
  \<open>OTP has already been used\<close>.
\<close>

theorem verifyEmail_already_verified:
  assumes "e \<noteq> []" "c \<noteq> []" "ascii e"
    and "otp_wf (otps db)"
    and "d \<in> set (otps db)" "otp_triple (schema_email e) c email_verification d"
    and "\<not> otp_isUsed d" "now < otp_expiresAt d" "otp_attempts d < 5"
    and "find (\<lambda>u. u_email u = e) (users db) = Some u" "u_emailVerified u"
  shows "(let d1 = d\<lparr>otp_isUsed := True, otp_attempts := otp_attempts d + 1\<rparr>;
              db1 = db\<lparr>otps := map (\<lambda>x. if otp_id x = otp_id d then d1 else x) (otps db)\<rparr>
          in verifyEmail hash salt now e c db = (db1, Inl (400, EmailAlreadyVerified))
           \<and> users db1 = users db
           \<and> d1 \<in> set (otps db1) \<and> d \<notin> set (otps db1)
           \<and> otp_isUsed d1 \<and> otp_attempts d1 = otp_attempts d + 1
           \<and> (\<forall>now'. snd (verifyEmail hash salt now' e c db1) = Inl (400, OTPAlreadyUsed)))"
  unfolding Let_def
proof (intro conjI allI)
  let ?p = email_verification
  let ?d1 = "d\<lparr>otp_isUsed := True, otp_attempts := otp_attempts d + 1\<rparr>"
  let ?s1 = "map (\<lambda>x. if otp_id x = otp_id d then ?d1 else x) (otps db)"
  let ?db1 = "db\<lparr>otps := ?s1\<rparr>"
  from assms(4) have keys: "one_code_per_pair (otps db)" by (simp add: otp_wf_def)
  have inj: "inj_on otp_key (set (otps db))"
    using keys by (simp add: one_code_per_pair_def distinct_map)
  have v: "verifyOTP now e c ?p (otps db)
             = (save_otp (d\<lparr>otp_isUsed := True\<rparr>) (otps db), Inr True)"
    using assms(7-9) by (simp add: verifyOTP_found[OF keys assms(5,6)])
  show "verifyEmail hash salt now e c db = (?db1, Inl (400, EmailAlreadyVerified))"
    using assms(1,2,10,11)
    by (simp add: verifyEmail_def verifyEmail_try_def v
          increment_after_save[OF assms(4,5,6)])
  show "users ?db1 = users db" by simp
  show mem: "?d1 \<in> set (otps ?db1)" using assms(5) by force
  show "d \<notin> set (otps ?db1)"
  proof
    assume "d \<in> set (otps ?db1)"
    then have "d = ?d1 \<or> otp_id d \<noteq> otp_id d" by (auto split: if_splits)
    then have "otp_isUsed d" by (auto dest: arg_cong[where f = otp_isUsed])
    with assms(7) show False by simp
  qed
  show "otp_isUsed ?d1" by simp
  show "otp_attempts ?d1 = otp_attempts d + 1" by simp
  have t1: "otp_triple (schema_email e) c ?p ?d1"
    using assms(6) by (simp add: otp_triple_def)
  have used: "\<And>y. y \<in> set (otps ?db1) \<Longrightarrow> otp_triple (schema_email e) c ?p y
                \<Longrightarrow> otp_isUsed y"
  proof -
    fix y assume y: "y \<in> set (otps ?db1)" "otp_triple (schema_email e) c ?p y"
    then have "y = ?d1 \<or> (y \<in> set (otps db) \<and> otp_id y \<noteq> otp_id d)"
      by (auto split: if_splits)
    then show "otp_isUsed y"
    proof
      assume "y = ?d1" then show ?thesis by simp
    next
      assume a: "y \<in> set (otps db) \<and> otp_id y \<noteq> otp_id d"
      have "otp_key y = otp_key d" using y(2) assms(6) by (simp add: triple_key)
      with inj a assms(5) have "y = d" by (auto dest: inj_onD)
      with a show ?thesis by simp
    qed
  qed
  have ex: "list_ex (otp_triple (schema_email e) c ?p) (otps ?db1)"
    using mem t1 unfolding list_ex_iff by blast
  fix now'
  have "verifyEmail hash salt now' e c ?db1 =
          (?db1\<lparr>otps := incrementAttempts e c ?p (otps ?db1)\<rparr>, Inl (400, OTPAlreadyUsed))"
    by (rule verifyEmail_used[OF assms(1,2) used ex])
  then show "snd (verifyEmail hash salt now' e c ?db1) = Inl (400, OTPAlreadyUsed)" by simp
qed

text \<open>
  An instance: Alice is verified, her address is registered with the name in upper case, and
  she submits her active code twice; the attempts go from 0 to 1.
\<close>

theorem verifyEmail_already_verified_witness:
  "''ALICE@example.com'' \<noteq> [] \<and> ''123456'' \<noteq> [] \<and> ascii ''ALICE@example.com''
   \<and> otp_wf (otps db_upper) \<and> otp_example \<in> set (otps db_upper)
   \<and> otp_triple (schema_email ''ALICE@example.com'') ''123456'' email_verification otp_example
   \<and> \<not> otp_isUsed otp_example \<and> 1000 < otp_expiresAt otp_example
   \<and> otp_attempts otp_example < 5
   \<and> find (\<lambda>u. u_email u = ''ALICE@example.com'') (users db_upper)
       = Some (user_alice\<lparr>u_email := ''ALICE@example.com'', u_emailVerified := True,
                           u_status := Active\<rparr>)
   \<and> verifyEmail hash_example salt_example 1000 ''ALICE@example.com'' ''123456'' db_upper
       = (db_upper\<lparr>otps := [otp_example\<lparr>otp_isUsed := True, otp_attempts := 1\<rparr>]\<rparr>,
          Inl (400, EmailAlreadyVerified))
   \<and> snd (verifyEmail hash_example salt_example 2000 ''ALICE@example.com'' ''123456''
            (db_upper\<lparr>otps := [otp_example\<lparr>otp_isUsed := True, otp_attempts := 1\<rparr>]\<rparr>))
       = Inl (400, OTPAlreadyUsed)"
proof -
  let ?e = "''ALICE@example.com''" and ?c = "''123456''"
  let ?u = "user_alice\<lparr>u_email := ''ALICE@example.com'', u_emailVerified := True,
                        u_status := Active\<rparr>"
  have se: "schema_email ?e = ''alice@example.com''" by code_simp
  have h1: "?e \<noteq> []" and h2: "?c \<noteq> []" by simp_all
  have h3: "ascii ?e" by code_simp
  have h4: "otp_wf (otps db_upper)"
    by (simp add: otp_wf_def one_code_per_pair_def db_upper_def)
  have h5: "otp_example \<in> set (otps db_upper)" by (simp add: db_upper_def)
  have h6: "otp_triple (schema_email ?e) ?c email_verification otp_example"
    by (simp add: se otp_triple_def otp_example_def)
  have h7: "\<not> otp_isUsed otp_example" and h8: "1000 < otp_expiresAt otp_example"
    and h9: "otp_attempts otp_example < 5"
    by (simp_all add: otp_example_def)
  have h10: "find (\<lambda>u. u_email u = ?e) (users db_upper) = Some ?u"
    by (simp add: db_upper_def)
  have h11: "u_emailVerified ?u" by simp
  have s: "map (\<lambda>x. if otp_id x = otp_id otp_example
                     then otp_example\<lparr>otp_isUsed := True,
                            otp_attempts := otp_attempts otp_example + 1\<rparr>
                     else x) (otps db_upper)
           = [otp_example\<lparr>otp_isUsed := True, otp_attempts := 1\<rparr>]"
    by (simp add: db_upper_def otp_example_def)
  note r = verifyEmail_already_verified[OF h1 h2 h3 h4 h5 h6 h7 h8 h9 h10 h11,
      of hash_example salt_example, unfolded Let_def s]
  from r h1 h2 h3 h4 h5 h6 h7 h8 h9 h10 show ?thesis by blast
qed

text \<open>A code that matches no document: nothing is counted.\<close>

lemma verifyEmail_wrong_code:
  assumes "e \<noteq> []" "c \<noteq> []"
    and "\<not> list_ex (otp_triple (schema_email e) c email_verification) (otps db)"
  shows "verifyEmail hash salt now e c db = (db, Inl (400, InvalidOTP))"
  using assms(1,2)
  by (simp add: verifyEmail_def verifyEmail_try_def verifyOTP_not_found[OF assms(3)]
        incrementAttempts_def updateOne_none[OF assms(3)])

lemma guess_wrong:
  "code \<noteq> [] \<Longrightarrow> code \<noteq> ''123456'' \<Longrightarrow>
   verifyEmail hash_example salt_example 1000 ''alice@example.com'' code db_pending
     = (db_pending, Inl (400, InvalidOTP))"
  by (rule verifyEmail_wrong_code)
     (simp_all add: schema_email_alice db_pending_def otp_triple_def otp_example_def)

text \<open>
  Claim C2, evaluated. Alice has the active code 123456 with no attempts. Five
  \<open>verify-email\<close> calls with wrong codes each fail with \<open>Invalid OTP\<close>; the \<open>catch\<close> block
  increments the document matching the submitted code, of which there is none, so the
  database is unchanged and the attempts of the active code are still 0. The sixth call,
  with the right code, succeeds: it does not fail with the too-many-attempts error.
\<close>

theorem verifyEmail_sixth_call_succeeds:
  "snd (verifyEmail hash_example salt_example 1000 ''alice@example.com'' ''000001'' db_pending)
     = Inl (400, InvalidOTP)
   \<and> guess ''000005'' (guess ''000004'' (guess ''000003'' (guess ''000002''
        (guess ''000001'' db_pending)))) = db_pending
   \<and> map otp_attempts (otps db_pending) = [0]
   \<and> snd (verifyEmail hash_example salt_example 1000 ''alice@example.com'' ''123456''
        (guess ''000005'' (guess ''000004'' (guess ''000003'' (guess ''000002''
          (guess ''000001'' db_pending))))))
     = Inr (EmailVerified
         (user_alice\<lparr>u_emailVerified := True, u_emailVerifiedAt := Some 1000,
                      u_status := Active, u_workspaces := [30]\<rparr>)
         \<lparr> w_id = 30, w_name = ''Alice'' @ CHR 0x27 # ''s Workspace'',
           w_description = Some ''Your personal workspace'', w_owner = 4,
           w_members = [\<lparr> m_user = 4, m_role = ''admin'' \<rparr>] \<rparr>)"
proof -
  have g: "\<And>code. code \<noteq> [] \<Longrightarrow> code \<noteq> ''123456'' \<Longrightarrow> guess code db_pending = db_pending"
    by (simp add: guess_def guess_wrong)
  have five: "guess ''000005'' (guess ''000004'' (guess ''000003'' (guess ''000002''
        (guess ''000001'' db_pending)))) = db_pending"
    by (simp add: g)
  have v: "verifyOTP 1000 ''alice@example.com'' ''123456'' email_verification (otps db_pending)
             = ([otp_example\<lparr>otp_isUsed := True\<rparr>], Inr True)"
    by (simp add: verifyOTP_def schema_email_alice db_pending_def otp_triple_def
          otp_example_def save_otp_def)
  have six: "snd (verifyEmail hash_example salt_example 1000 ''alice@example.com'' ''123456''
               db_pending)
     = Inr (EmailVerified
         (user_alice\<lparr>u_emailVerified := True, u_emailVerifiedAt := Some 1000,
                      u_status := Active, u_workspaces := [30]\<rparr>)
         \<lparr> w_id = 30, w_name = ''Alice'' @ CHR 0x27 # ''s Workspace'',
           w_description = Some ''Your personal workspace'', w_owner = 4,
           w_members = [\<lparr> m_user = 4, m_role = ''admin'' \<rparr>] \<rparr>)"
    by (simp add: verifyEmail_def verifyEmail_try_def v)
       (simp add: db_pending_def user_alice_def save_loaded_user_def save_user_def
          user_pre_save_def isModified_def create_workspace_def validate_workspace_def
          workspace_roles_def Let_def)
  show ?thesis
    unfolding five six by (simp add: guess_wrong) (simp add: db_pending_def otp_example_def)
qed

text \<open>
  The calls that do count are those that submit the stored code itself, and the first of
  them uses the code up: after five failed calls with the code of a verified user, the
  attempts are 5 and the sixth call fails with \<open>OTP has already been used\<close>.
\<close>

lemma verifyEmail_used_code_not_locked:
  "map otp_attempts (otps
      (guess ''123456'' (guess ''123456'' (guess ''123456'' (guess ''123456''
        (guess ''123456'' db_verified)))))) = [5]
   \<and> snd (verifyEmail hash_example salt_example 1000 ''alice@example.com'' ''123456''
        (guess ''123456'' (guess ''123456'' (guess ''123456'' (guess ''123456''
          (guess ''123456'' db_verified))))))
     = Inl (400, OTPAlreadyUsed)"
  by code_simp


section \<open>Delivery failures\<close>

lemma registerUser_otp_ignores_success:
  "registerUser_otp cfg rnd now (EmailResult False) user email db
     = registerUser_otp cfg rnd now (EmailResult True) user email db"
  by (simp add: registerUser_otp_def Let_def split: prod.splits sum.splits)

lemma registerUser_create_ignores_success:
  "registerUser_create cfg rnd hash salt now (EmailResult False) name email password db
     = registerUser_create cfg rnd hash salt now (EmailResult True) name email password db"
  by (simp add: registerUser_create_def Let_def registerUser_otp_ignores_success
        split: prod.splits sum.splits)

lemma registerUser_ignores_success:
  "registerUser cfg rnd hash salt now (EmailResult False) name email password db
     = registerUser cfg rnd hash salt now (EmailResult True) name email password db"
  by (simp add: registerUser_def registerUser_create_ignores_success split: option.splits)

lemma deleteOne_append_fresh:
  "\<not> list_ex P xs \<Longrightarrow> P x \<Longrightarrow> deleteOne P (xs @ [x]) = xs"
  by (induction xs) auto

lemma createInvitation_result:
  "createInvitation cfg now i tok data store = (store', r) \<Longrightarrow>
     (case r of Inl e \<Rightarrow> store' = store
              | Inr new \<Rightarrow> store' = store @ [new] \<and> inv_id new = i)"
  by (auto simp: createInvitation_def Let_def split: option.splits if_splits)

lemma sendInvitation_try_failed:
  assumes "\<not> list_ex (\<lambda>i. inv_id i = next_id db) (invitations db)"
  shows "invitations (fst (sendInvitation_try cfg now token (EmailResult False) reqUser email
            workspace role msg db)) = invitations db
       \<and> isl (snd (sendInvitation_try cfg now token (EmailResult False) reqUser email
            workspace role msg db))"
proof -
  let ?data = "\<lparr> d_email = toLowerCase email, d_workspaceId = w_id workspace,
               d_invitedBy = u_id reqUser, d_role = Some role,
               d_inviterName = Some (u_name reqUser),
               d_workspaceName = Some (w_name workspace),
               d_personalMessage = msg \<rparr>"
  obtain store' r where c: "createInvitation cfg now (next_id db) token ?data (invitations db)
      = (store', r)" by (cases "createInvitation cfg now (next_id db) token ?data (invitations db)")
  show ?thesis
  proof (cases r)
    case (Inl e)
    with createInvitation_result[OF c] show ?thesis
      by (simp add: sendInvitation_try_def c)
  next
    case (Inr new)
    with createInvitation_result[OF c]
    have s: "store' = invitations db @ [new]" "inv_id new = next_id db" by simp_all
    have "deleteOne (\<lambda>i. inv_id i = inv_id new) (invitations db @ [new])
            = invitations db"
      using assms s(2) by (intro deleteOne_append_fresh) simp_all
    then show ?thesis
      by (simp add: sendInvitation_try_def c Inr s Let_def)
  qed
qed

lemma sendInvitation_failed:
  assumes "\<not> list_ex (\<lambda>i. inv_id i = next_id db) (invitations db)"
  shows "invitations (fst (sendInvitation cfg now token (EmailResult False) reqUser email
            workspaceId role0 msg db)) = invitations db
       \<and> isl (snd (sendInvitation cfg now token (EmailResult False) reqUser email
            workspaceId role0 msg db))"
  using sendInvitation_try_failed[OF assms]
  by (simp add: sendInvitation_def Let_def split: option.splits)

text \<open>
  Claim C3, as stated, fails for registration: when \<open>sendOTPEmail\<close> reports a failure,
  \<open>registerUser\<close> only logs it and answers 201; the unverified user and the active code
  stay in the database.
\<close>

theorem registerUser_keeps_undelivered_code:
  "registerUser env_default rnd_example hash_example salt_example 1000 (EmailResult False)
        ''Alice'' ''alice@example.com'' ''secret1'' db_empty
     = (db_empty\<lparr>users := [user_alice],
                  otps := [\<lparr> otp_id = 5, otp_email = ''alice@example.com'',
                             otp_otp = ''012345'', otp_purpose = email_verification,
                             otp_attempts = 0, otp_isUsed = False,
                             otp_expiresAt = 601000 \<rparr>],
                  next_id := 6\<rparr>,
        Inr (Registered user_alice))
   \<and> \<not> u_emailVerified user_alice
   \<and> otp_active 1000 \<lparr> otp_id = 5, otp_email = ''alice@example.com'',
                             otp_otp = ''012345'', otp_purpose = email_verification,
                             otp_attempts = 0, otp_isUsed = False,
                             otp_expiresAt = 601000 \<rparr>"
  by code_simp

lemma deleteOne_by_key:
  "distinct (map k xs) \<Longrightarrow> deleteOne (\<lambda>y. k y = a) xs = filter (\<lambda>y. k y \<noteq> a) xs"
proof (induction xs)
  case Nil
  then show ?case by simp
next
  case (Cons d ds)
  show ?case
  proof (cases "k d = a")
    case True
    with Cons.prems have "\<And>y. y \<in> set ds \<Longrightarrow> k y \<noteq> a"
      by (fastforce simp: image_iff)
    then have "filter (\<lambda>y. k y \<noteq> a) ds = ds" by (simp add: filter_id_conv)
    with True show ?thesis by simp
  next
    case False
    with Cons show ?thesis by simp
  qed
qed

text \<open>A registration that reaches \<open>User.create\<close> under an address no user has, with a
  configuration under which \<open>createOTP\<close> succeeds, whatever the e-mail service reports.\<close>

lemma registerUser_create_ok:
  assumes "name \<noteq> []" "email \<noteq> []" "password \<noteq> []"
    and "\<not> list_ex (\<lambda>u. u_email u = email) (users db)"
    and "schema_email email \<noteq> []" "0 < parseInt_or (OTP_LENGTH cfg) 6"
    and "valid_date (now + parseInt_or (OTP_EXPIRY_MINUTES cfg) 10 * 60 * 1000)"
  shows "registerUser_create cfg rnd hash salt now (EmailResult b) name email password db
     = (db\<lparr>users := users db @ [registered (next_id db) hash salt name email password],
            otps := filter (\<lambda>d. \<not> otp_pair (schema_email email) email_verification d) (otps db)
                    @ [issued cfg rnd now (Suc (next_id db)) email email_verification],
            next_id := Suc (Suc (next_id db))\<rparr>,
        Inr (Registered (registered (next_id db) hash salt name email password)))"
proof -
  let ?data = "\<lparr> ud_name = name, ud_email = email, ud_password = password,
                   ud_avatar = None, ud_preferences = None,
                   ud_status = Some PendingVerification, ud_emailVerified = Some False,
                   ud_emailVerifiedAt = None \<rparr>"
  let ?u = "registered (next_id db) hash salt name email password"
  have s: "save_user True hash salt (new_User (next_id db) ?data) (users db)
             = (users db @ [?u], Inr \<lparr> doc = ?u, modifiedPaths = [], isNew = False \<rparr>)"
    using assms(1-4)
    by (simp add: save_user_def new_User_def user_pre_save_def isModified_def given_def
          default_to_def registered_def Let_def)
  have c: "createOTP cfg rnd now (Suc (next_id db)) email email_verification (otps db)
             = (filter (\<lambda>d. \<not> otp_pair (schema_email email) email_verification d) (otps db)
                  @ [issued cfg rnd now (Suc (next_id db)) email email_verification],
                Inr (generateOTP rnd (parseInt_or (OTP_LENGTH cfg) 6)))"
    by (rule createOTP_ok[OF assms(5,6,7)])
  show ?thesis
    by (simp add: registerUser_create_def s registerUser_otp_def c Let_def)
qed

lemma registerUser_ok:
  assumes "name \<noteq> []" "email \<noteq> []" "6 \<le> length password"
    and "distinct (map u_id (users db))" "distinct (map u_email (users db))"
    and "\<not> list_ex (\<lambda>u. u_email u = email \<and> u_emailVerified u) (users db)"
    and "schema_email email \<noteq> []" "0 < parseInt_or (OTP_LENGTH cfg) 6"
    and "valid_date (now + parseInt_or (OTP_EXPIRY_MINUTES cfg) 10 * 60 * 1000)"
  shows "registerUser cfg rnd hash salt now (EmailResult b) name email password db
     = (db\<lparr>users := filter (\<lambda>u. u_email u \<noteq> email) (users db)
                       @ [registered (next_id db) hash salt name email password],
            otps := filter (\<lambda>d. \<not> otp_pair (schema_email email) email_verification d) (otps db)
                    @ [issued cfg rnd now (Suc (next_id db)) email email_verification],
            next_id := Suc (Suc (next_id db))\<rparr>,
        Inr (Registered (registered (next_id db) hash salt name email password)))"
proof -
  from assms(3) have pw: "password \<noteq> []" "\<not> length password < 6" by auto
  show ?thesis
  proof (cases "find (\<lambda>u. u_email u = email) (users db)")
    case None
    then have n: "\<not> list_ex (\<lambda>u. u_email u = email) (users db)"
      by (simp add: find_None_list_ex)
    then have f: "filter (\<lambda>u. u_email u \<noteq> email) (users db) = users db"
      by (auto simp: filter_id_conv list_ex_iff)
    show ?thesis
      using assms(1,2) pw
      by (simp add: registerUser_def None f
            registerUser_create_ok[OF assms(1,2) pw(1) n assms(7,8,9)])
  next
    case (Some ue)
    then have ue: "ue \<in> set (users db)" "u_email ue = email"
      by (auto simp: find_Some_iff)
    with assms(6) have unv: "\<not> u_emailVerified ue" by (auto simp: list_ex_iff)
    let ?db0 = "db\<lparr>users := deleteOne (\<lambda>u. u_id u = u_id ue) (users db)\<rparr>"
    have inj_id: "inj_on u_id (set (users db))" and inj_em: "inj_on u_email (set (users db))"
      using assms(4,5) by (simp_all add: distinct_map)
    have "filter (\<lambda>u. u_id u \<noteq> u_id ue) (users db)
            = filter (\<lambda>u. u_email u \<noteq> email) (users db)"
    proof (rule filter_cong[OF refl])
      fix u assume u: "u \<in> set (users db)"
      have "u_id u = u_id ue \<longleftrightarrow> u = ue" using inj_id u ue(1) by (auto dest: inj_onD)
      moreover have "u_email u = email \<longleftrightarrow> u = ue"
        using inj_em u ue by (auto dest: inj_onD)
      ultimately show "(u_id u \<noteq> u_id ue) = (u_email u \<noteq> email)" by simp
    qed
    then have d: "deleteOne (\<lambda>u. u_id u = u_id ue) (users db)
                    = filter (\<lambda>u. u_email u \<noteq> email) (users db)"
      by (simp add: deleteOne_by_key[OF assms(4)])
    have n: "\<not> list_ex (\<lambda>u. u_email u = email) (users ?db0)"
      by (simp add: d list_ex_iff)
    note c = registerUser_create_ok[OF assms(1,2) pw(1) n assms(7,8,9), of rnd hash salt b]
    have "registerUser cfg rnd hash salt now (EmailResult b) name email password db
            = registerUser_create cfg rnd hash salt now (EmailResult b) name email password ?db0"
      using assms(1,2) pw unv by (simp add: registerUser_def Some)
    also have "\<dots> = (db\<lparr>users := filter (\<lambda>u. u_email u \<noteq> email) (users db)
                       @ [registered (next_id db) hash salt name email password],
            otps := filter (\<lambda>d. \<not> otp_pair (schema_email email) email_verification d) (otps db)
                    @ [issued cfg rnd now (Suc (next_id db)) email email_verification],
            next_id := Suc (Suc (next_id db))\<rparr>,
        Inr (Registered (registered (next_id db) hash salt name email password)))"
      unfolding c by (simp add: d)
    finally show ?thesis .
  qed
qed

text \<open>
  Claim C3, amended. When \<open>sendTeamInvitationEmail\<close> reports a failure, \<open>sendInvitation\<close>
  fails and the invitations are what they were before the request: the invitation it created
  is deleted (new ObjectIds are fresh). When \<open>sendOTPEmail\<close> reports a failure, a
  registration that passes the checks of \<open>registerUser\<close> (name, address and a password of six
  characters or more given, no verified user under the address; ids and addresses of the
  users unique; an ASCII password, an ASCII address that is not blank and a configuration
  under which a code can be issued) succeeds as for a delivered code: the answer is the registered user, and
  the database holds that unverified user and the issued code, which is active.
\<close>

theorem delivery_failure_rollback:
  "(\<not> list_ex (\<lambda>i. inv_id i = next_id db) (invitations db) \<longrightarrow>
      invitations (fst (sendInvitation cfg now token (EmailResult False) reqUser email
            workspaceId role0 msg db)) = invitations db
      \<and> isl (snd (sendInvitation cfg now token (EmailResult False) reqUser email
            workspaceId role0 msg db)))
   \<and> (name \<noteq> [] \<and> email' \<noteq> [] \<and> 6 \<le> length password \<and> ascii password
      \<and> ascii email'
      \<and> distinct (map u_id (users rdb)) \<and> distinct (map u_email (users rdb))
      \<and> \<not> list_ex (\<lambda>u. u_email u = email' \<and> u_emailVerified u) (users rdb)
      \<and> schema_email email' \<noteq> [] \<and> 0 < parseInt_or (OTP_LENGTH cfg) 6
      \<and> 0 < parseInt_or (OTP_EXPIRY_MINUTES cfg) 10
      \<and> valid_date (now + parseInt_or (OTP_EXPIRY_MINUTES cfg) 10 * 60 * 1000)
      \<longrightarrow> registerUser cfg rnd hash salt now (EmailResult False) name email' password rdb
            = (rdb\<lparr>users := filter (\<lambda>u. u_email u \<noteq> email') (users rdb)
                        @ [registered (next_id rdb) hash salt name email' password],
                    otps := filter (\<lambda>d. \<not> otp_pair (schema_email email') email_verification d)
                              (otps rdb)
                        @ [issued cfg rnd now (Suc (next_id rdb)) email' email_verification],
                    next_id := Suc (Suc (next_id rdb))\<rparr>,
               Inr (Registered (registered (next_id rdb) hash salt name email' password)))
          \<and> registered (next_id rdb) hash salt name email' password
              \<in> set (users (fst (registerUser cfg rnd hash salt now (EmailResult False) name
                                  email' password rdb)))
          \<and> \<not> u_emailVerified (registered (next_id rdb) hash salt name email' password)
          \<and> issued cfg rnd now (Suc (next_id rdb)) email' email_verification
              \<in> set (otps (fst (registerUser cfg rnd hash salt now (EmailResult False) name
                                 email' password rdb)))
          \<and> otp_active now (issued cfg rnd now (Suc (next_id rdb)) email' email_verification))
   \<and> registerUser cfg rnd hash salt now (EmailResult False) name email' password rdb
       = registerUser cfg rnd hash salt now (EmailResult True) name email' password rdb"
proof (intro conjI impI)
  assume "\<not> list_ex (\<lambda>i. inv_id i = next_id db) (invitations db)"
  from sendInvitation_failed[OF this]
  show "invitations (fst (sendInvitation cfg now token (EmailResult False) reqUser email
            workspaceId role0 msg db)) = invitations db"
    and "isl (snd (sendInvitation cfg now token (EmailResult False) reqUser email
            workspaceId role0 msg db))"
    by blast+
next
  show "registerUser cfg rnd hash salt now (EmailResult False) name email' password rdb
       = registerUser cfg rnd hash salt now (EmailResult True) name email' password rdb"
    by (rule registerUser_ignores_success)
next
  assume a: "name \<noteq> [] \<and> email' \<noteq> [] \<and> 6 \<le> length password \<and> ascii password
      \<and> ascii email'
      \<and> distinct (map u_id (users rdb)) \<and> distinct (map u_email (users rdb))
      \<and> \<not> list_ex (\<lambda>u. u_email u = email' \<and> u_emailVerified u) (users rdb)
      \<and> schema_email email' \<noteq> [] \<and> 0 < parseInt_or (OTP_LENGTH cfg) 6
      \<and> 0 < parseInt_or (OTP_EXPIRY_MINUTES cfg) 10
      \<and> valid_date (now + parseInt_or (OTP_EXPIRY_MINUTES cfg) 10 * 60 * 1000)"
  then have h: "name \<noteq> []" "email' \<noteq> []" "6 \<le> length password"
      "distinct (map u_id (users rdb))" "distinct (map u_email (users rdb))"
      "\<not> list_ex (\<lambda>u. u_email u = email' \<and> u_emailVerified u) (users rdb)"
      "schema_email email' \<noteq> []" "0 < parseInt_or (OTP_LENGTH cfg) 6"
      "valid_date (now + parseInt_or (OTP_EXPIRY_MINUTES cfg) 10 * 60 * 1000)"
    by blast+
  from a have m: "0 < parseInt_or (OTP_EXPIRY_MINUTES cfg) 10" by blast
  note r = registerUser_ok[OF h, of rnd hash salt False]
  show "registerUser cfg rnd hash salt now (EmailResult False) name email' password rdb
            = (rdb\<lparr>users := filter (\<lambda>u. u_email u \<noteq> email') (users rdb)
                        @ [registered (next_id rdb) hash salt name email' password],
                    otps := filter (\<lambda>d. \<not> otp_pair (schema_email email') email_verification d)
                              (otps rdb)
                        @ [issued cfg rnd now (Suc (next_id rdb)) email' email_verification],
                    next_id := Suc (Suc (next_id rdb))\<rparr>,
               Inr (Registered (registered (next_id rdb) hash salt name email' password)))"
    by (rule r)
  show "registered (next_id rdb) hash salt name email' password
              \<in> set (users (fst (registerUser cfg rnd hash salt now (EmailResult False) name
                                  email' password rdb)))"
    by (simp add: r)
  show "\<not> u_emailVerified (registered (next_id rdb) hash salt name email' password)"
    by (simp add: registered_def)
  show "issued cfg rnd now (Suc (next_id rdb)) email' email_verification
              \<in> set (otps (fst (registerUser cfg rnd hash salt now (EmailResult False) name
                                 email' password rdb)))"
    by (simp add: r)
  show "otp_active now (issued cfg rnd now (Suc (next_id rdb)) email' email_verification)"
    using m by (simp add: otp_active_def issued_def)
qed

text \<open>An instance: Bob invites Carol and the e-mail is not delivered; Alice registers and
  the code is not delivered.\<close>

theorem delivery_failure_rollback_witness:
  "\<not> list_ex (\<lambda>i. inv_id i = next_id db_workspace) (invitations db_workspace)
   \<and> sendInvitation env_default 1000 ''c3d4'' (EmailResult False) user_owner
        ''Carol@Example.com'' (Some 10) None None db_workspace
       = (db_workspace\<lparr>next_id := 31\<rparr>, Inl (400, FailedToSendInvitationEmail))
   \<and> invitations (fst (sendInvitation env_default 1000 ''c3d4'' (EmailResult False) user_owner
        ''Carol@Example.com'' (Some 10) None None db_workspace)) = invitations db_workspace
   \<and> ''Alice'' \<noteq> [] \<and> '' Alice@Example.COM '' \<noteq> [] \<and> 6 \<le> length ''secret1''
   \<and> ascii ''secret1''
   \<and> ascii '' Alice@Example.COM ''
   \<and> distinct (map u_id (users db_empty)) \<and> distinct (map u_email (users db_empty))
   \<and> schema_email '' Alice@Example.COM '' \<noteq> []
   \<and> 0 < parseInt_or (OTP_LENGTH env_default) 6
   \<and> 0 < parseInt_or (OTP_EXPIRY_MINUTES env_default) 10
   \<and> valid_date (1000 + parseInt_or (OTP_EXPIRY_MINUTES env_default) 10 * 60 * 1000)
   \<and> snd (registerUser env_default rnd_example hash_example salt_example 1000
             (EmailResult False) ''Alice'' '' Alice@Example.COM '' ''secret1'' db_empty)
       = Inr (Registered (registered 4 hash_example salt_example ''Alice''
                '' Alice@Example.COM '' ''secret1''))
   \<and> issued env_default rnd_example 1000 5 '' Alice@Example.COM '' email_verification
       \<in> set (otps (fst (registerUser env_default rnd_example hash_example salt_example 1000
             (EmailResult False) ''Alice'' '' Alice@Example.COM '' ''secret1'' db_empty)))"
proof -
  let ?e = "'' Alice@Example.COM ''"
  have h: "\<not> list_ex (\<lambda>i. inv_id i = next_id db_workspace) (invitations db_workspace)"
    by (simp add: db_workspace_def)
  have e: "sendInvitation env_default 1000 ''c3d4'' (EmailResult False) user_owner
        ''Carol@Example.com'' (Some 10) None None db_workspace
       = (db_workspace\<lparr>next_id := 31\<rparr>, Inl (400, FailedToSendInvitationEmail))"
    by code_simp
  have ap: "ascii ''secret1''" by code_simp
  have g: "''Alice'' \<noteq> [] \<and> ?e \<noteq> [] \<and> 6 \<le> length ''secret1'' \<and> ascii ''secret1''
      \<and> ascii ?e
      \<and> distinct (map u_id (users db_empty)) \<and> distinct (map u_email (users db_empty))
      \<and> \<not> list_ex (\<lambda>u. u_email u = ?e \<and> u_emailVerified u) (users db_empty)
      \<and> schema_email ?e \<noteq> [] \<and> 0 < parseInt_or (OTP_LENGTH env_default) 6
      \<and> 0 < parseInt_or (OTP_EXPIRY_MINUTES env_default) 10
      \<and> valid_date (1000 + parseInt_or (OTP_EXPIRY_MINUTES env_default) 10 * 60 * 1000)"
    by (simp add: ap schema_email_alice db_empty_def parseInt_or_def env_default_def
          valid_date_def)
  have n: "next_id db_empty = 4" by (simp add: db_empty_def)
  note r = delivery_failure_rollback[where db = db_workspace and cfg = env_default
      and now = 1000 and token = "''c3d4''" and reqUser = user_owner
      and email = "''Carol@Example.com''" and workspaceId = "Some 10" and ?role0.0 = None
      and msg = None and rnd = rnd_example and hash = hash_example and salt = salt_example
      and name = "''Alice''" and email' = ?e and password = "''secret1''" and rdb = db_empty]
  from r h g
  have i: "invitations (fst (sendInvitation env_default 1000 ''c3d4'' (EmailResult False)
              user_owner ''Carol@Example.com'' (Some 10) None None db_workspace))
            = invitations db_workspace"
    and s: "registerUser env_default rnd_example hash_example salt_example 1000
             (EmailResult False) ''Alice'' ?e ''secret1'' db_empty
            = (db_empty\<lparr>users := filter (\<lambda>u. u_email u \<noteq> ?e) (users db_empty)
                        @ [registered (next_id db_empty) hash_example salt_example ''Alice'' ?e
                             ''secret1''],
                    otps := filter (\<lambda>d. \<not> otp_pair (schema_email ?e) email_verification d)
                              (otps db_empty)
                        @ [issued env_default rnd_example 1000 (Suc (next_id db_empty)) ?e
                             email_verification],
                    next_id := Suc (Suc (next_id db_empty))\<rparr>,
               Inr (Registered (registered (next_id db_empty) hash_example salt_example
                      ''Alice'' ?e ''secret1'')))"
    by blast+
  have s1: "snd (registerUser env_default rnd_example hash_example salt_example 1000
             (EmailResult False) ''Alice'' ?e ''secret1'' db_empty)
       = Inr (Registered (registered 4 hash_example salt_example ''Alice'' ?e ''secret1''))"
    by (simp add: s n)
  have s2: "issued env_default rnd_example 1000 5 ?e email_verification
       \<in> set (otps (fst (registerUser env_default rnd_example hash_example salt_example 1000
             (EmailResult False) ''Alice'' ?e ''secret1'' db_empty)))"
    by (simp add: s n)
  from h e i g s1 s2 show ?thesis by blast
qed


section \<open>Promotion of a temporary user\<close>

text \<open>The password of a new user document is a modified path, whatever else is marked, so
  the promoted account holds the hash of the pending hash.\<close>

lemma new_User_password_modified: "isModified ''password'' (new_User i data)"
  by (simp add: isModified_def new_User_def)

lemma markModified_keeps: "isModified p d \<Longrightarrow> isModified p (markModified q d)"
  by (simp add: isModified_def markModified_def)

lemma promoteToUser_password:
  assumes "find (\<lambda>t. t_email t = schema_email email) tempUsers = Some tempUser"
    and "\<not> list_ex (\<lambda>u. u_email u = t_email tempUser) accounts"
  shows "\<exists>u. snd (promoteToUser hash salt now i email (tempUsers, accounts)) = Inr u
           \<and> u_password u = hash (t_password tempUser) salt"
  using assms
  by (simp add: promoteToUser_def save_user_def user_pre_save_def Let_def
        markModified_keeps new_User_password_modified)
     (simp add: new_User_def markModified_def)

text \<open>
  Claim C1, evaluated. \<open>promoteToUser\<close> builds the new user from the pending record, so
  \<open>password\<close> is among the modified paths of the new document; marking the other paths
  modified does not change that, and the pre-save hook of the User model hashes the pending
  hash again. For every \<open>hash\<close> and \<open>salt\<close> the stored credential is
  \<open>hash (pending hash) salt\<close>, not the pending hash.
\<close>

theorem promoteToUser_hashes_again:
  "promoteToUser hash salt 1000 5 ''alice@example.com'' ([tmp_alice], [])
     = (([], [\<lparr> u_id = 5, u_name = ''Alice'', u_email = ''alice@example.com'',
                 u_password = hash (t_password tmp_alice) salt,
                 u_avatar = ''/images/default-avatar.png'', u_status = Active,
                 u_emailVerified = True, u_emailVerifiedAt = Some 1000,
                 u_preferences = \<lparr> theme = ''light'', timezone = ''UTC'' \<rparr>,
                 u_workspaces = [] \<rparr>]),
        Inr \<lparr> u_id = 5, u_name = ''Alice'', u_email = ''alice@example.com'',
                 u_password = hash (t_password tmp_alice) salt,
                 u_avatar = ''/images/default-avatar.png'', u_status = Active,
                 u_emailVerified = True, u_emailVerifiedAt = Some 1000,
                 u_preferences = \<lparr> theme = ''light'', timezone = ''UTC'' \<rparr>,
                 u_workspaces = [] \<rparr>)
   \<and> hash_example (t_password tmp_alice) salt_example \<noteq> t_password tmp_alice"
  by (simp add: promoteToUser_def schema_email_alice tmp_alice_def new_User_def
        markModified_def save_user_def user_pre_save_def isModified_def given_def
        default_to_def Let_def hash_example_def salt_example_def)

end
